theory Spec2Isabelle
  imports Complex_Main
begin

section \<open>Python values and dictionaries\<close>

text \<open>
  The collectors of \<^verbatim>\<open>android-monitor.py\<close> hand every record to the store as a Python
  dictionary. The values that occur are \<^verbatim>\<open>None\<close>, integers (unbounded), floats and
  strings. Floats are modelled by exact reals: rounding is not part of the model.
  A dictionary keeps its insertion order, so it is an association list; Python keeps
  keys unique.
\<close>

datatype pyval = PyNone | PyInt int | PyFloat real | PyStr string

type_synonym pydict = "(string \<times> pyval) list"

datatype py_error = OperationalError | ProgrammingError | ValueError | IndexError

text \<open>\<^verbatim>\<open>row.get(col)\<close>: the value, or \<^verbatim>\<open>None\<close> for a missing key.\<close>

definition dict_get :: "pydict \<Rightarrow> string \<Rightarrow> pyval" where
  "dict_get row col = (case map_of row col of None \<Rightarrow> PyNone | Some v \<Rightarrow> v)"

section \<open>DatabaseManager\<close>

text \<open>
  The SQLite file behind \<^verbatim>\<open>DatabaseManager\<close>. A table has the columns of its
  \<^verbatim>\<open>CREATE TABLE\<close> statement (name and declared type) and its committed rows, oldest
  first. A stored row binds exactly the columns named by the \<^verbatim>\<open>INSERT\<close> that wrote
  it; every other column of the row reads as \<^verbatim>\<open>NULL\<close> (the \<^verbatim>\<open>id\<close> column is the
  row's position). An index has a name, a table and a column.

  \<^verbatim>\<open>db_closed\<close> is set by \<^verbatim>\<open>close()\<close>; a statement on a closed connection raises
  \<^verbatim>\<open>ProgrammingError\<close>. \<^verbatim>\<open>db_faults\<close> is the environment's schedule of I/O faults
  for the coming \<^verbatim>\<open>executemany\<close> calls: the head is consumed by each call that reaches
  the engine, and \<^verbatim>\<open>True\<close> makes that call raise \<^verbatim>\<open>OperationalError\<close>.
\<close>

record table =
  tbl_columns :: "(string \<times> string) list"
  tbl_rows :: "pydict list"

record database =
  db_tables :: "(string \<times> table) list"
  db_indexes :: "(string \<times> string \<times> string) list"
  db_closed :: bool
  db_faults :: "bool list"

definition schemas :: "(string \<times> (string \<times> string) list) list" where
  "schemas =
    [(''logcat_entries'',
        [(''id'', ''INTEGER PRIMARY KEY AUTOINCREMENT''), (''timestamp'', ''REAL''),
         (''level'', ''TEXT''), (''tag'', ''TEXT''), (''pid'', ''INTEGER''),
         (''message'', ''TEXT''), (''raw_entry'', ''TEXT'')]),
     (''network_stats'',
        [(''id'', ''INTEGER PRIMARY KEY AUTOINCREMENT''), (''timestamp'', ''REAL''),
         (''interface'', ''TEXT''), (''bytes_sent'', ''INTEGER''),
         (''bytes_recv'', ''INTEGER''), (''packets_sent'', ''INTEGER''),
         (''packets_recv'', ''INTEGER''), (''errors_in'', ''INTEGER''),
         (''errors_out'', ''INTEGER'')]),
     (''process_stats'',
        [(''id'', ''INTEGER PRIMARY KEY AUTOINCREMENT''), (''timestamp'', ''REAL''),
         (''pid'', ''INTEGER''), (''name'', ''TEXT''), (''cpu_percent'', ''REAL''),
         (''memory_percent'', ''REAL''), (''memory_rss'', ''INTEGER''),
         (''memory_vms'', ''INTEGER''), (''num_threads'', ''INTEGER''),
         (''status'', ''TEXT'')]),
     (''memory_stats'',
        [(''id'', ''INTEGER PRIMARY KEY AUTOINCREMENT''), (''timestamp'', ''REAL''),
         (''total'', ''INTEGER''), (''available'', ''INTEGER''), (''percent'', ''REAL''),
         (''used'', ''INTEGER''), (''free'', ''INTEGER''), (''swap_total'', ''INTEGER''),
         (''swap_used'', ''INTEGER''), (''swap_free'', ''INTEGER'')]),
     (''battery_stats'',
        [(''id'', ''INTEGER PRIMARY KEY AUTOINCREMENT''), (''timestamp'', ''REAL''),
         (''level'', ''INTEGER''), (''status'', ''TEXT''), (''temperature'', ''REAL''),
         (''voltage'', ''REAL''), (''technology'', ''TEXT''), (''health'', ''TEXT'')]),
     (''filesystem_events'',
        [(''id'', ''INTEGER PRIMARY KEY AUTOINCREMENT''), (''timestamp'', ''REAL''),
         (''event_type'', ''TEXT''), (''path'', ''TEXT''), (''size'', ''INTEGER''),
         (''permissions'', ''TEXT''), (''owner'', ''TEXT'')]),
     (''app_events'',
        [(''id'', ''INTEGER PRIMARY KEY AUTOINCREMENT''), (''timestamp'', ''REAL''),
         (''package_name'', ''TEXT''), (''event_type'', ''TEXT''),
         (''component'', ''TEXT''), (''data'', ''TEXT'')]),
     (''alerts'',
        [(''id'', ''INTEGER PRIMARY KEY AUTOINCREMENT''), (''timestamp'', ''REAL''),
         (''module'', ''TEXT''), (''severity'', ''TEXT''), (''message'', ''TEXT''),
         (''data'', ''TEXT'')])]"

definition indexes :: "(string \<times> string \<times> string) list" where
  "indexes =
    [(''idx_logcat_timestamp'', ''logcat_entries'', ''timestamp''),
     (''idx_network_timestamp'', ''network_stats'', ''timestamp''),
     (''idx_process_timestamp'', ''process_stats'', ''timestamp''),
     (''idx_memory_timestamp'', ''memory_stats'', ''timestamp''),
     (''idx_battery_timestamp'', ''battery_stats'', ''timestamp''),
     (''idx_fs_timestamp'', ''filesystem_events'', ''timestamp''),
     (''idx_app_timestamp'', ''app_events'', ''timestamp''),
     (''idx_alerts_timestamp'', ''alerts'', ''timestamp'')]"

definition table_names :: "database \<Rightarrow> string set" where
  "table_names db = set (map fst (db_tables db))"

definition index_names :: "database \<Rightarrow> string set" where
  "index_names db = set (map fst (db_indexes db))"

text \<open>
  \<^verbatim>\<open>CREATE TABLE IF NOT EXISTS name (...)\<close>: nothing happens when the table exists; SQLite
  refuses the name of an existing index; otherwise the table is added, empty.
\<close>

definition create_table_if_not_exists ::
  "database \<Rightarrow> string \<times> (string \<times> string) list \<Rightarrow> py_error option \<times> database" where
  "create_table_if_not_exists db sch =
     (if fst sch \<in> table_names db then (None, db)
      else if fst sch \<in> index_names db then (Some OperationalError, db)
      else (None, db\<lparr>db_tables := db_tables db @
                        [(fst sch, \<lparr>tbl_columns = snd sch, tbl_rows = []\<rparr>)]\<rparr>))"

text \<open>
  \<^verbatim>\<open>CREATE INDEX IF NOT EXISTS name ON tbl(col)\<close>: SQLite looks the table up first, then
  refuses the name of an existing table, then does nothing when the index exists, and
  last checks the column.
\<close>

definition create_index_if_not_exists ::
  "database \<Rightarrow> string \<times> string \<times> string \<Rightarrow> py_error option \<times> database" where
  "create_index_if_not_exists db idx =
     (case map_of (db_tables db) (fst (snd idx)) of
        None \<Rightarrow> (Some OperationalError, db)
      | Some t \<Rightarrow>
          if fst idx \<in> table_names db then (Some OperationalError, db)
          else if fst idx \<in> index_names db then (None, db)
          else if snd (snd idx) \<in> set (map fst (tbl_columns t))
               then (None, db\<lparr>db_indexes := db_indexes db @ [idx]\<rparr>)
          else (Some OperationalError, db))"

text \<open>
  A \<^verbatim>\<open>for\<close> loop of statements: the first one that raises ends the loop, and the
  statements before it have taken effect.
\<close>

fun execute_all ::
  "(database \<Rightarrow> 'a \<Rightarrow> py_error option \<times> database) \<Rightarrow> database \<Rightarrow> 'a list
     \<Rightarrow> py_error option \<times> database" where
  "execute_all stmt db [] = (None, db)"
| "execute_all stmt db (x # xs) =
     (case stmt db x of
        (Some e, db') \<Rightarrow> (Some e, db')
      | (None, db') \<Rightarrow> execute_all stmt db' xs)"

text \<open>
  \<^verbatim>\<open>init_database\<close>: a fresh connection (so the store is open), the eight tables, the
  eight indexes, and a commit.
\<close>

definition init_database :: "database \<Rightarrow> py_error option \<times> database" where
  "init_database db =
     (case execute_all create_table_if_not_exists (db\<lparr>db_closed := False\<rparr>) schemas of
        (Some e, db') \<Rightarrow> (Some e, db')
      | (None, db') \<Rightarrow> execute_all create_index_if_not_exists db' indexes)"

text \<open>
  \<^verbatim>\<open>executemany(query, values)\<close> followed by \<^verbatim>\<open>commit()\<close>, for the statement
  \<^verbatim>\<open>INSERT INTO table (columns) VALUES (?, ...)\<close>. The rows become visible together
  or not at all.
\<close>

definition executemany ::
  "database \<Rightarrow> string \<Rightarrow> string list \<Rightarrow> pyval list list \<Rightarrow> py_error option \<times> database" where
  "executemany db tbl columns vals =
     (if db_closed db then (Some ProgrammingError, db)
      else case db_faults db of
        True # fs \<Rightarrow> (Some OperationalError, db\<lparr>db_faults := fs\<rparr>)
      | fs \<Rightarrow>
         (let db1 = db\<lparr>db_faults := tl fs\<rparr> in
          case map_of (db_tables db) tbl of
            None \<Rightarrow> (Some OperationalError, db1)
          | Some t \<Rightarrow>
              if set columns \<subseteq> set (map fst (tbl_columns t))
              then (None, db1\<lparr>db_tables :=
                      map (\<lambda>(n, t'). if n = tbl
                             then (n, t'\<lparr>tbl_rows := tbl_rows t' @ map (zip columns) vals\<rparr>)
                             else (n, t'))
                          (db_tables db)\<rparr>)
              else (Some OperationalError, db1)))"

definition insert_batch ::
  "database \<Rightarrow> string \<Rightarrow> pydict list \<Rightarrow> py_error option \<times> database" where
  "insert_batch db tbl data =
     (if data = [] then (None, db)
      else
        let columns = map fst (hd data);
            vals = map (\<lambda>row. map (\<lambda>col. dict_get row col) columns) data
        in executemany db tbl columns vals)"

definition close :: "database \<Rightarrow> database" where
  "close db = db\<lparr>db_closed := True\<rparr>"

text \<open>The rows of a table; a table that does not exist has none.\<close>

definition rows_of :: "database \<Rightarrow> string \<Rightarrow> pydict list" where
  "rows_of db tbl = (case map_of (db_tables db) tbl of None \<Rightarrow> [] | Some t \<Rightarrow> tbl_rows t)"

text \<open>A store file that does not exist yet: \<^verbatim>\<open>sqlite3.connect\<close> creates it empty.\<close>

definition new_database :: database where
  "new_database = \<lparr>db_tables = [], db_indexes = [], db_closed = True, db_faults = []\<rparr>"

text \<open>The store after \<^verbatim>\<open>init_database\<close> on such a file.\<close>

definition fresh_store :: database where
  "fresh_store =
     \<lparr>db_tables = map (\<lambda>(n, cols). (n, \<lparr>tbl_columns = cols, tbl_rows = []\<rparr>)) schemas,
      db_indexes = indexes, db_closed = False, db_faults = []\<rparr>"

text \<open>
  An index statement of \<^verbatim>\<open>init_database\<close> has nothing left to do: its table exists,
  no table has its name, and the index exists.
\<close>

definition index_present :: "database \<Rightarrow> string \<times> string \<times> string \<Rightarrow> bool" where
  "index_present db idx \<longleftrightarrow>
     map_of (db_tables db) (fst (snd idx)) \<noteq> None \<and>
     fst idx \<notin> table_names db \<and> fst idx \<in> index_names db"

text \<open>
  A small store and a batch whose second record lacks a key of the first
  (\<^verbatim>\<open>message\<close>) and has a key the first lacks (\<^verbatim>\<open>severity\<close>).
\<close>

definition alerts_only_store :: database where
  "alerts_only_store =
     \<lparr>db_tables = [(''alerts'', \<lparr>tbl_columns = snd (last schemas), tbl_rows = []\<rparr>)],
      db_indexes = [], db_closed = False, db_faults = []\<rparr>"

definition uneven_batch :: "pydict list" where
  "uneven_batch =
     [[(''module'', PyStr ''a''), (''message'', PyStr ''m'')],
      [(''module'', PyStr ''b''), (''severity'', PyStr ''s'')]]"

section \<open>Strings and patterns\<close>

text \<open>
  Lines of the log stream are modelled as ASCII text. \<^verbatim>\<open>\s\<close> and \<^verbatim>\<open>str.strip\<close> use
  Python's whitespace (tab, line feed, vertical tab, form feed, carriage return, the four
  separators \<^verbatim>\<open>0x1c\<close> to \<^verbatim>\<open>0x1f\<close>, and space); \<^verbatim>\<open>\d\<close> is a decimal digit; \<^verbatim>\<open>.\<close> is
  any character but the line feed.
\<close>

definition is_space :: "char \<Rightarrow> bool" where
  "is_space c \<longleftrightarrow> c \<in> set [CHR 0x09, CHR 0x0A, CHR 0x0B, CHR 0x0C, CHR 0x0D,
                            CHR 0x1C, CHR 0x1D, CHR 0x1E, CHR 0x1F, CHR 0x20]"

definition is_digit :: "char \<Rightarrow> bool" where
  "is_digit c \<longleftrightarrow> c \<in> set ''0123456789''"

definition not_newline :: "char \<Rightarrow> bool" where
  "not_newline c \<longleftrightarrow> c \<noteq> CHR 0x0A"

text \<open>\<^verbatim>\<open>s.strip()\<close>\<close>

definition strip :: "string \<Rightarrow> string" where
  "strip s = rev (dropWhile is_space (rev (dropWhile is_space s)))"

text \<open>\<^verbatim>\<open>s.split()\<close>: the maximal runs of characters that are not whitespace.\<close>

fun split_ws_from :: "string \<Rightarrow> string \<Rightarrow> string list" where
  "split_ws_from word [] = (if word = [] then [] else [word])"
| "split_ws_from word (c # s) =
     (if is_space c then (if word = [] then [] else [word]) @ split_ws_from [] s
      else split_ws_from (word @ [c]) s)"

definition split_ws :: "string \<Rightarrow> string list" where
  "split_ws s = split_ws_from [] s"

text \<open>\<^verbatim>\<open>s.split(sep)\<close> for a separator of one character: empty pieces are kept.\<close>

fun split_on_from :: "char \<Rightarrow> string \<Rightarrow> string \<Rightarrow> string list" where
  "split_on_from sep word [] = [word]"
| "split_on_from sep word (c # s) =
     (if c = sep then word # split_on_from sep [] s
      else split_on_from sep (word @ [c]) s)"

definition split_on :: "char \<Rightarrow> string \<Rightarrow> string list" where
  "split_on sep s = split_on_from sep [] s"

text \<open>\<^verbatim>\<open>s.replace(old, new)\<close> for single characters.\<close>

definition replace :: "char \<Rightarrow> char \<Rightarrow> string \<Rightarrow> string" where
  "replace old new s = map (\<lambda>c. if c = old then new else c) s"

text \<open>
  \<^verbatim>\<open>int(s)\<close> on a string of decimal digits; anything else the patterns below never pass
  to it, and it is a \<^verbatim>\<open>ValueError\<close> here.
\<close>

definition digit_value :: "char \<Rightarrow> int" where
  "digit_value c = of_char c - 48"

definition py_int :: "string \<Rightarrow> py_error + int" where
  "py_int s =
     (if s \<noteq> [] \<and> list_all is_digit s
      then Inr (foldl (\<lambda>n c. 10 * n + digit_value c) 0 s)
      else Inl ValueError)"

text \<open>\<^verbatim>\<open>xs[i]\<close> for \<open>i \<ge> 0\<close>: an \<^verbatim>\<open>IndexError\<close> out of range.\<close>

definition index :: "'a list \<Rightarrow> nat \<Rightarrow> py_error + 'a" where
  "index xs i = (if i < length xs then Inr (xs ! i) else Inl IndexError)"

text \<open>\<^verbatim>\<open>str(n)\<close> for an integer.\<close>

definition digit_char :: "nat \<Rightarrow> char" where
  "digit_char d = ''0123456789'' ! d"

fun str_nat :: "nat \<Rightarrow> string" where
  "str_nat n = (if n < 10 then [digit_char n] else str_nat (n div 10) @ [digit_char (n mod 10)])"

declare str_nat.simps [simp del]

definition str_int :: "int \<Rightarrow> string" where
  "str_int i = (if i < 0 then CHR ''-'' # str_nat (nat (- i)) else str_nat (nat i))"

subsection \<open>Regular expressions\<close>

text \<open>
  The patterns of the source are sequences of literals, character classes, greedy
  repetitions of a character class, and groups that are not nested. \<open>Many p\<close> is \<^verbatim>\<open>p*\<close>,
  \<open>Many1 p\<close> is \<^verbatim>\<open>p+\<close>, \<open>Times n p\<close> is \<^verbatim>\<open>p{n}\<close>; \<open>GOpen\<close> and \<open>GClose\<close> are the
  parentheses of a group.
\<close>

datatype rx = Lit string | One "char \<Rightarrow> bool" | Times nat "char \<Rightarrow> bool"
            | Many "char \<Rightarrow> bool" | Many1 "char \<Rightarrow> bool" | GOpen | GClose

text \<open>
  The text consumed so far inside the open group, if one is open.
\<close>

definition consume :: "string option \<Rightarrow> string \<Rightarrow> string option" where
  "consume cur s = (case cur of None \<Rightarrow> None | Some g \<Rightarrow> Some (g @ s))"

text \<open>
  Backtracking matching at the start of the input, as Python's \<^verbatim>\<open>re\<close> does it: a greedy
  repetition first tries to take one more character, and gives it back only when the
  rest of the pattern fails. The result is the groups, in order, and the input left
  after the match.
\<close>

fun rx_match :: "rx list \<Rightarrow> string \<Rightarrow> string list \<Rightarrow> string option
                   \<Rightarrow> (string list \<times> string) option" where
  "rx_match [] s groups cur = Some (groups, s)"
| "rx_match (GOpen # r) s groups cur = rx_match r s groups (Some [])"
| "rx_match (GClose # r) s groups cur =
     rx_match r s (groups @ [case cur of None \<Rightarrow> [] | Some g \<Rightarrow> g]) None"
| "rx_match (Lit l # r) s groups cur =
     (if take (length l) s = l then rx_match r (drop (length l) s) groups (consume cur l)
      else None)"
| "rx_match (One p # r) s groups cur =
     (case s of [] \<Rightarrow> None
      | c # s' \<Rightarrow> if p c then rx_match r s' groups (consume cur [c]) else None)"
| "rx_match (Times n p # r) s groups cur =
     (case n of 0 \<Rightarrow> rx_match r s groups cur
      | Suc m \<Rightarrow>
         (case s of [] \<Rightarrow> None
          | c # s' \<Rightarrow> if p c then rx_match (Times m p # r) s' groups (consume cur [c])
                      else None))"
| "rx_match (Many p # r) s groups cur =
     (case s of [] \<Rightarrow> rx_match r s groups cur
      | c # s' \<Rightarrow>
         if p c
         then (case rx_match (Many p # r) s' groups (consume cur [c]) of
                 Some res \<Rightarrow> Some res
               | None \<Rightarrow> rx_match r s groups cur)
         else rx_match r s groups cur)"
| "rx_match (Many1 p # r) s groups cur =
     (case s of [] \<Rightarrow> None
      | c # s' \<Rightarrow> if p c then rx_match (Many p # r) s' groups (consume cur [c]) else None)"

text \<open>\<^verbatim>\<open>pattern.match(line)\<close>: the groups of the match at the start of the line.\<close>

definition re_match :: "rx list \<Rightarrow> string \<Rightarrow> string list option" where
  "re_match pat s = map_option fst (rx_match pat s [] None)"

text \<open>\<^verbatim>\<open>re.search(pattern, line)\<close>: the groups of the leftmost match.\<close>

fun re_search :: "rx list \<Rightarrow> string \<Rightarrow> string list option" where
  "re_search pat [] = re_match pat []"
| "re_search pat (c # s) =
     (case re_match pat (c # s) of Some groups \<Rightarrow> Some groups | None \<Rightarrow> re_search pat s)"

subsection \<open>Dates\<close>

text \<open>
  \<^verbatim>\<open>datetime(year, month, day, hour, minute, second)\<close> raises \<^verbatim>\<open>ValueError\<close> unless the
  fields name a date of the calendar and a time of the day.
\<close>

record py_datetime =
  dt_year :: int
  dt_month :: int
  dt_day :: int
  dt_hour :: int
  dt_minute :: int
  dt_second :: int

definition is_leap :: "int \<Rightarrow> bool" where
  "is_leap y \<longleftrightarrow> y mod 4 = 0 \<and> (y mod 100 \<noteq> 0 \<or> y mod 400 = 0)"

definition days_in_month :: "int \<Rightarrow> int \<Rightarrow> int" where
  "days_in_month y m =
     (if m = 2 then (if is_leap y then 29 else 28)
      else if m \<in> {4, 6, 9, 11} then 30 else 31)"

definition datetime :: "int \<Rightarrow> int \<Rightarrow> int \<Rightarrow> int \<Rightarrow> int \<Rightarrow> int \<Rightarrow> py_error + py_datetime" where
  "datetime y m d hh mm ss =
     (if 1 \<le> y \<and> y \<le> 9999 \<and> 1 \<le> m \<and> m \<le> 12 \<and> 1 \<le> d \<and> d \<le> days_in_month y m \<and>
         0 \<le> hh \<and> hh \<le> 23 \<and> 0 \<le> mm \<and> mm \<le> 59 \<and> 0 \<le> ss \<and> ss \<le> 59
      then Inr \<lparr>dt_year = y, dt_month = m, dt_day = d,
                dt_hour = hh, dt_minute = mm, dt_second = ss\<rparr>
      else Inl ValueError)"

text \<open>
  What the program takes from Python's library and from the host without the model
  fixing it: the conversion of a local date and time to seconds since the epoch
  (\<^verbatim>\<open>datetime.timestamp\<close>, which depends on the time zone), \<^verbatim>\<open>json.dumps\<close>, and the
  formatting of a float with one or two decimals.
\<close>

record pylib =
  dt_timestamp :: "py_datetime \<Rightarrow> real"
  json_dumps :: "pydict \<Rightarrow> string"
  format_1f :: "real \<Rightarrow> string"
  format_2f :: "real \<Rightarrow> string"


section \<open>LogcatMonitor: parsing a line\<close>

text \<open>
  The pattern compiled in \<^verbatim>\<open>LogcatMonitor.__init__\<close>:
  \<^verbatim>\<open>(\d{2}-\d{2}\s+\d{2}:\d{2}:\d{2}\.\d{3})\s+(\d+)\s+(\d+)\s+([VDIWEF])\s+([^:]+):\s*(.*)\<close>
\<close>

definition log_pattern :: "rx list" where
  "log_pattern =
     [GOpen, Times 2 is_digit, Lit ''-'', Times 2 is_digit, Many1 is_space,
        Times 2 is_digit, Lit '':'', Times 2 is_digit, Lit '':'', Times 2 is_digit,
        Lit ''.'', Times 3 is_digit, GClose, Many1 is_space,
      GOpen, Many1 is_digit, GClose, Many1 is_space,
      GOpen, Many1 is_digit, GClose, Many1 is_space,
      GOpen, One (\<lambda>c. c \<in> set ''VDIWEF''), GClose, Many1 is_space,
      GOpen, Many1 (\<lambda>c. c \<noteq> CHR '':''), GClose, Lit '':'', Many is_space,
      GOpen, Many not_newline, GClose]"

text \<open>Sequencing of steps that may raise: the first exception ends the function.\<close>

definition and_then :: "py_error + 'a \<Rightarrow> ('a \<Rightarrow> py_error + 'b) \<Rightarrow> py_error + 'b" where
  "and_then r f = (case r of Inl e \<Rightarrow> Inl e | Inr x \<Rightarrow> f x)"

text \<open>\<^verbatim>\<open>[int(x) for x in xs]\<close>\<close>

fun all_ints :: "string list \<Rightarrow> py_error + int list" where
  "all_ints [] = Inr []"
| "all_ints (x # xs) =
     and_then (py_int x) (\<lambda>n. and_then (all_ints xs) (\<lambda>ns. Inr (n # ns)))"

text \<open>
  \<^verbatim>\<open>datetime(year, month, day, *rest)\<close> with at most three further arguments: the hour,
  minute and second that are not given are 0.
\<close>

definition datetime_star :: "int \<Rightarrow> int \<Rightarrow> int \<Rightarrow> int list \<Rightarrow> py_error + py_datetime" where
  "datetime_star y m d rest =
     (case rest of
        [] \<Rightarrow> datetime y m d 0 0 0
      | [hh] \<Rightarrow> datetime y m d hh 0 0
      | [hh, mm] \<Rightarrow> datetime y m d hh mm 0
      | hh # mm # ss # _ \<Rightarrow> datetime y m d hh mm ss)"

text \<open>
  \<^verbatim>\<open>_parse_logcat_line\<close>. \<open>now_year\<close> is \<^verbatim>\<open>datetime.now().year\<close>, read when the line is
  parsed. The result is \<^verbatim>\<open>None\<close> when the line does not match, the entry when it does,
  and an exception when a step of the conversion raises.
\<close>

definition parse_logcat_line :: "pylib \<Rightarrow> int \<Rightarrow> string \<Rightarrow> py_error + pydict option" where
  "parse_logcat_line lib now_year line =
     (case re_match log_pattern line of
        Some [timestamp_str, pid, tid, level, tag, message] \<Rightarrow>
          (let time_parts = split_ws timestamp_str in
           and_then (index time_parts 0) (\<lambda>date_str.
           let date_parts = split_on CHR ''-'' date_str in
           and_then (index time_parts 1) (\<lambda>time_str.
           and_then (index date_parts 0) (\<lambda>month_str.
           and_then (py_int month_str) (\<lambda>month.
           and_then (index date_parts 1) (\<lambda>day_str.
           and_then (py_int day_str) (\<lambda>day.
           and_then (all_ints (split_ws (replace CHR ''.'' CHR '' ''
                                 (replace CHR '':'' CHR '' '' time_str)))) (\<lambda>fields.
           and_then (datetime_star now_year month day (take 3 fields)) (\<lambda>dt.
           and_then (py_int pid) (\<lambda>pid_int.
           Inr (Some [(''timestamp'', PyFloat (dt_timestamp lib dt)),
                      (''level'', PyStr level),
                      (''tag'', PyStr tag),
                      (''pid'', PyInt pid_int),
                      (''message'', PyStr message),
                      (''raw_entry'', PyStr line)])))))))))))
      | _ \<Rightarrow> Inr None)"

section \<open>AppMonitor: parsing a line\<close>

text \<open>
  The patterns of \<^verbatim>\<open>_parse_app_event\<close>, in the order of the dictionary:
  \<^verbatim>\<open>START.*cmp=([^/]+)/([^\s]+)\<close>, \<^verbatim>\<open>Displayed ([^:]+): \+(\d+)ms\<close>,
  \<^verbatim>\<open>Force stopping ([^\s]+)\<close>, \<^verbatim>\<open>Process ([^\s]+).*has crashed\<close>, \<^verbatim>\<open>ANR in ([^\s]+)\<close>.
\<close>

definition not_space :: "char \<Rightarrow> bool" where
  "not_space c \<longleftrightarrow> \<not> is_space c"

definition start_activity_pattern :: "rx list" where
  "start_activity_pattern =
     [Lit ''START'', Many not_newline, Lit ''cmp='',
      GOpen, Many1 (\<lambda>c. c \<noteq> CHR ''/''), GClose, Lit ''/'', GOpen, Many1 not_space, GClose]"

definition displayed_pattern :: "rx list" where
  "displayed_pattern =
     [Lit ''Displayed '', GOpen, Many1 (\<lambda>c. c \<noteq> CHR '':''), GClose, Lit '': +'',
      GOpen, Many1 is_digit, GClose, Lit ''ms'']"

definition force_stop_pattern :: "rx list" where
  "force_stop_pattern = [Lit ''Force stopping '', GOpen, Many1 not_space, GClose]"

definition crash_pattern :: "rx list" where
  "crash_pattern =
     [Lit ''Process '', GOpen, Many1 not_space, GClose, Many not_newline, Lit ''has crashed'']"

definition anr_pattern :: "rx list" where
  "anr_pattern = [Lit ''ANR in '', GOpen, Many1 not_space, GClose]"

text \<open>
  The event of the patterns \<^verbatim>\<open>force_stop\<close>, \<^verbatim>\<open>crash\<close> and \<^verbatim>\<open>anr\<close>, whose
  \<^verbatim>\<open>event_type\<close> is the key of the pattern.
\<close>

definition plain_app_event :: "real \<Rightarrow> string \<Rightarrow> string \<Rightarrow> string \<Rightarrow> pydict" where
  "plain_app_event timestamp event_type package line =
     [(''timestamp'', PyFloat timestamp), (''package_name'', PyStr package),
      (''event_type'', PyStr event_type), (''component'', PyStr ''''),
      (''data'', PyStr line)]"

text \<open>
  \<^verbatim>\<open>_parse_app_event\<close>. \<open>timestamp\<close> is \<^verbatim>\<open>time.time()\<close>, read when the line is parsed.
  The first pattern found in the line decides; a group that a match must have and the
  model's matcher did not return is an \<^verbatim>\<open>IndexError\<close>.
\<close>

definition parse_app_event :: "real \<Rightarrow> string \<Rightarrow> py_error + pydict option" where
  "parse_app_event timestamp line =
     (case re_search start_activity_pattern line of
        Some groups \<Rightarrow>
          and_then (index groups 0) (\<lambda>g1. and_then (index groups 1) (\<lambda>g2.
            Inr (Some [(''timestamp'', PyFloat timestamp), (''package_name'', PyStr g1),
                       (''event_type'', PyStr ''start_activity''),
                       (''component'', PyStr g2), (''data'', PyStr line)])))
      | None \<Rightarrow>
     (case re_search displayed_pattern line of
        Some groups \<Rightarrow>
          and_then (index groups 0) (\<lambda>g1. and_then (index groups 1) (\<lambda>g2.
          and_then (index (split_on CHR ''/'' g1) 0) (\<lambda>package.
            Inr (Some [(''timestamp'', PyFloat timestamp), (''package_name'', PyStr package),
                       (''event_type'', PyStr ''activity_displayed''),
                       (''component'', PyStr g1),
                       (''data'', PyStr (''Launch time: '' @ g2 @ ''ms''))]))))
      | None \<Rightarrow>
     (case re_search force_stop_pattern line of
        Some groups \<Rightarrow>
          and_then (index groups 0) (\<lambda>g1.
            Inr (Some (plain_app_event timestamp ''force_stop'' g1 line)))
      | None \<Rightarrow>
     (case re_search crash_pattern line of
        Some groups \<Rightarrow>
          and_then (index groups 0) (\<lambda>g1.
            Inr (Some (plain_app_event timestamp ''crash'' g1 line)))
      | None \<Rightarrow>
     (case re_search anr_pattern line of
        Some groups \<Rightarrow>
          and_then (index groups 0) (\<lambda>g1.
            Inr (Some (plain_app_event timestamp ''anr'' g1 line)))
      | None \<Rightarrow> Inr None)))))"


section \<open>Configuration and alerts\<close>

text \<open>The fields of \<^verbatim>\<open>MonitorConfig\<close> that the functions below read.\<close>

record monitor_config =
  logcat_buffer_size :: nat
  alert_cpu_threshold :: real
  alert_memory_threshold :: real
  alert_battery_threshold :: real
  alert_network_threshold :: real

text \<open>
  \<^verbatim>\<open>_create_alert(alert_type, message, data)\<close> is the same in every collector but for the
  module name: one row for the \<^verbatim>\<open>alerts\<close> table, of severity \<^verbatim>\<open>WARNING\<close>, inserted as
  a batch of one. \<open>now\<close> is \<^verbatim>\<open>time.time()\<close>. The source does not use \<open>alert_type\<close>.
\<close>

definition alert_row :: "pylib \<Rightarrow> string \<Rightarrow> real \<Rightarrow> string \<Rightarrow> pydict \<Rightarrow> pydict" where
  "alert_row lib modname now message data =
     [(''timestamp'', PyFloat now), (''module'', PyStr modname),
      (''severity'', PyStr ''WARNING''), (''message'', PyStr message),
      (''data'', PyStr (json_dumps lib data))]"

definition create_alert ::
  "pylib \<Rightarrow> string \<Rightarrow> database \<Rightarrow> real \<Rightarrow> string \<Rightarrow> string \<Rightarrow> pydict
     \<Rightarrow> py_error option \<times> database" where
  "create_alert lib modname db now alert_type message data =
     insert_batch db ''alerts'' [alert_row lib modname now message data]"

section \<open>MemoryMonitor\<close>

text \<open>
  The dictionary built by \<^verbatim>\<open>_collect_memory_stats\<close>: nine fixed keys, and the entries
  of \<^verbatim>\<open>/proc/meminfo\<close> (keys \<^verbatim>\<open>meminfo_...\<close>) that \<^verbatim>\<open>stats.update\<close> adds when
  \<^verbatim>\<open>memory_detailed\<close> is set.
\<close>

record memory_stats =
  ms_timestamp :: real
  ms_total :: int
  ms_available :: int
  ms_percent :: real
  ms_used :: int
  ms_free :: int
  ms_swap_total :: int
  ms_swap_used :: int
  ms_swap_free :: int
  ms_meminfo :: "(string \<times> int) list"

definition memory_stats_dict :: "memory_stats \<Rightarrow> pydict" where
  "memory_stats_dict s =
     [(''timestamp'', PyFloat (ms_timestamp s)), (''total'', PyInt (ms_total s)),
      (''available'', PyInt (ms_available s)), (''percent'', PyFloat (ms_percent s)),
      (''used'', PyInt (ms_used s)), (''free'', PyInt (ms_free s)),
      (''swap_total'', PyInt (ms_swap_total s)), (''swap_used'', PyInt (ms_swap_used s)),
      (''swap_free'', PyInt (ms_swap_free s))]
     @ map (\<lambda>(k, v). (''meminfo_'' @ k, PyInt v)) (ms_meminfo s)"

definition memory_alert :: "pylib \<Rightarrow> real \<Rightarrow> memory_stats \<Rightarrow> pydict" where
  "memory_alert lib now stats =
     alert_row lib ''memory'' now
       (''System memory usage: '' @ format_1f lib (ms_percent stats) @ ''%'')
       (memory_stats_dict stats)"

definition MemoryMonitor_check_thresholds ::
  "pylib \<Rightarrow> monitor_config \<Rightarrow> database \<Rightarrow> real \<Rightarrow> memory_stats \<Rightarrow> py_error option \<times> database" where
  "MemoryMonitor_check_thresholds lib cfg db now stats =
     (if ms_percent stats > alert_memory_threshold cfg
      then create_alert lib ''memory'' db now ''HIGH_MEMORY_USAGE''
             (''System memory usage: '' @ format_1f lib (ms_percent stats) @ ''%'')
             (memory_stats_dict stats)
      else (None, db))"

text \<open>
  One turn of \<^verbatim>\<open>MemoryMonitor._monitor_loop\<close> while \<^verbatim>\<open>running\<close> is set. The environment
  gives what \<^verbatim>\<open>_collect_memory_stats\<close> returned or raised, and the clock reading for an
  alert. An exception of any step is caught and logged by the loop (it is the first
  component of the result), and the turn ends with the sleep.
\<close>

definition MemoryMonitor_tick ::
  "pylib \<Rightarrow> monitor_config \<Rightarrow> database \<Rightarrow> (py_error + memory_stats) \<times> real
     \<Rightarrow> py_error option \<times> database" where
  "MemoryMonitor_tick lib cfg db t =
     (case fst t of
        Inl e \<Rightarrow> (Some e, db)
      | Inr stats \<Rightarrow>
          (case insert_batch db ''memory_stats'' [memory_stats_dict stats] of
             (Some e, db') \<Rightarrow> (Some e, db')
           | (None, db') \<Rightarrow> MemoryMonitor_check_thresholds lib cfg db' (snd t) stats))"

text \<open>
  The loop, for the turns it makes before \<^verbatim>\<open>running\<close> is cleared: the log of the
  exceptions caught, and the store.
\<close>

fun MemoryMonitor_monitor_loop ::
  "pylib \<Rightarrow> monitor_config \<Rightarrow> database \<Rightarrow> ((py_error + memory_stats) \<times> real) list
     \<Rightarrow> py_error list \<times> database" where
  "MemoryMonitor_monitor_loop lib cfg db [] = ([], db)"
| "MemoryMonitor_monitor_loop lib cfg db (t # ts) =
     (case MemoryMonitor_tick lib cfg db t of
        (err, db') \<Rightarrow>
          (case MemoryMonitor_monitor_loop lib cfg db' ts of
             (errs, db'') \<Rightarrow> ((case err of None \<Rightarrow> [] | Some e \<Rightarrow> [e]) @ errs, db'')))"

section \<open>NetworkMonitor\<close>

record network_stat =
  ns_timestamp :: real
  ns_interface :: string
  ns_bytes_sent :: int
  ns_bytes_recv :: int
  ns_packets_sent :: int
  ns_packets_recv :: int
  ns_errors_in :: int
  ns_errors_out :: int

definition network_stat_dict :: "network_stat \<Rightarrow> pydict" where
  "network_stat_dict s =
     [(''timestamp'', PyFloat (ns_timestamp s)), (''interface'', PyStr (ns_interface s)),
      (''bytes_sent'', PyInt (ns_bytes_sent s)), (''bytes_recv'', PyInt (ns_bytes_recv s)),
      (''packets_sent'', PyInt (ns_packets_sent s)),
      (''packets_recv'', PyInt (ns_packets_recv s)),
      (''errors_in'', PyInt (ns_errors_in s)), (''errors_out'', PyInt (ns_errors_out s))]"

text \<open>
  The rate of \<^verbatim>\<open>_check_thresholds\<close>, in bytes per second and in MB per second, between
  the remembered sample of an interface and the new one. Python's integers do not
  wrap, and the quotient is a float.
\<close>

definition time_diff :: "network_stat \<Rightarrow> network_stat \<Rightarrow> real" where
  "time_diff prev stat = ns_timestamp stat - ns_timestamp prev"

definition bytes_rate :: "network_stat \<Rightarrow> network_stat \<Rightarrow> real" where
  "bytes_rate prev stat =
     real_of_int ((ns_bytes_sent stat - ns_bytes_sent prev) +
                  (ns_bytes_recv stat - ns_bytes_recv prev)) / time_diff prev stat"

definition mb_rate :: "network_stat \<Rightarrow> network_stat \<Rightarrow> real" where
  "mb_rate prev stat = bytes_rate prev stat / (1024 * 1024)"

definition network_alert :: "pylib \<Rightarrow> real \<Rightarrow> network_stat \<Rightarrow> network_stat \<Rightarrow> pydict" where
  "network_alert lib now prev stat =
     alert_row lib ''network'' now
       (''Network usage on '' @ ns_interface stat @ '': '' @
          format_2f lib (mb_rate prev stat) @ '' MB/s'')
       [(''interface'', PyStr (ns_interface stat)), (''rate_mbps'', PyFloat (mb_rate prev stat))]"

text \<open>
  The body of the loop of \<^verbatim>\<open>_check_thresholds\<close> before \<^verbatim>\<open>last_stats[iface] = stat\<close>:
  what one sample does to the store.
\<close>

definition check_rate ::
  "pylib \<Rightarrow> monitor_config \<Rightarrow> real \<Rightarrow> (string \<rightharpoonup> network_stat) \<Rightarrow> database \<Rightarrow> network_stat
     \<Rightarrow> py_error option \<times> database" where
  "check_rate lib cfg now last_stats db stat =
     (case last_stats (ns_interface stat) of
        None \<Rightarrow> (None, db)
      | Some prev \<Rightarrow>
          if time_diff prev stat > 0
          then (if mb_rate prev stat > alert_network_threshold cfg
                then create_alert lib ''network'' db now ''HIGH_NETWORK_USAGE''
                       (''Network usage on '' @ ns_interface stat @ '': '' @
                          format_2f lib (mb_rate prev stat) @ '' MB/s'')
                       [(''interface'', PyStr (ns_interface stat)),
                        (''rate_mbps'', PyFloat (mb_rate prev stat))]
                else (None, db))
          else (None, db))"

text \<open>
  \<^verbatim>\<open>NetworkMonitor._check_thresholds\<close>: the samples of one poll, in order. An exception
  of the store leaves the function, and the sample that raised is not remembered.
\<close>

fun NetworkMonitor_check_thresholds ::
  "pylib \<Rightarrow> monitor_config \<Rightarrow> real \<Rightarrow> (string \<rightharpoonup> network_stat) \<Rightarrow> database
     \<Rightarrow> network_stat list \<Rightarrow> py_error option \<times> (string \<rightharpoonup> network_stat) \<times> database" where
  "NetworkMonitor_check_thresholds lib cfg now last_stats db [] = (None, last_stats, db)"
| "NetworkMonitor_check_thresholds lib cfg now last_stats db (stat # stats) =
     (case check_rate lib cfg now last_stats db stat of
        (Some e, db') \<Rightarrow> (Some e, last_stats, db')
      | (None, db') \<Rightarrow>
          NetworkMonitor_check_thresholds lib cfg now
            (last_stats(ns_interface stat \<mapsto> stat)) db' stats)"

text \<open>
  One turn of \<^verbatim>\<open>NetworkMonitor._monitor_loop\<close> and the loop, as for the memory
  collector; an empty list of samples is skipped (\<^verbatim>\<open>if stats:\<close>).
\<close>

definition NetworkMonitor_tick ::
  "pylib \<Rightarrow> monitor_config \<Rightarrow> (string \<rightharpoonup> network_stat) \<times> database
     \<Rightarrow> (py_error + network_stat list) \<times> real
     \<Rightarrow> py_error option \<times> (string \<rightharpoonup> network_stat) \<times> database" where
  "NetworkMonitor_tick lib cfg st t =
     (case fst t of
        Inl e \<Rightarrow> (Some e, st)
      | Inr stats \<Rightarrow>
          if stats = [] then (None, st)
          else (case insert_batch (snd st) ''network_stats'' (map network_stat_dict stats) of
                  (Some e, db') \<Rightarrow> (Some e, fst st, db')
                | (None, db') \<Rightarrow>
                    NetworkMonitor_check_thresholds lib cfg (snd t) (fst st) db' stats))"

fun NetworkMonitor_monitor_loop ::
  "pylib \<Rightarrow> monitor_config \<Rightarrow> (string \<rightharpoonup> network_stat) \<times> database
     \<Rightarrow> ((py_error + network_stat list) \<times> real) list
     \<Rightarrow> py_error list \<times> (string \<rightharpoonup> network_stat) \<times> database" where
  "NetworkMonitor_monitor_loop lib cfg st [] = ([], st)"
| "NetworkMonitor_monitor_loop lib cfg st (t # ts) =
     (case NetworkMonitor_tick lib cfg st t of
        (err, st') \<Rightarrow>
          (case NetworkMonitor_monitor_loop lib cfg st' ts of
             (errs, st'') \<Rightarrow> ((case err of None \<Rightarrow> [] | Some e \<Rightarrow> [e]) @ errs, st'')))"

section \<open>FilesystemMonitor\<close>

text \<open>
  A snapshot is the dictionary \<^verbatim>\<open>path -> {size, mtime, permissions, owner}\<close> of a scan,
  in the order in which the scan met the paths.
\<close>

record file_stat =
  fs_size :: int
  fs_mtime :: real
  fs_permissions :: string
  fs_owner :: int

type_synonym snapshot = "(string \<times> file_stat) list"

definition fs_event :: "real \<Rightarrow> string \<Rightarrow> string \<Rightarrow> int \<Rightarrow> string \<Rightarrow> string \<Rightarrow> pydict" where
  "fs_event timestamp event_type path sz permissions owner =
     [(''timestamp'', PyFloat timestamp), (''event_type'', PyStr event_type),
      (''path'', PyStr path), (''size'', PyInt sz),
      (''permissions'', PyStr permissions), (''owner'', PyStr owner)]"

text \<open>The three loops of \<^verbatim>\<open>_detect_changes\<close>, each appending to \<^verbatim>\<open>events\<close>.\<close>

fun new_files :: "real \<Rightarrow> snapshot \<Rightarrow> snapshot \<Rightarrow> pydict list \<Rightarrow> pydict list" where
  "new_files timestamp file_stats [] events = events"
| "new_files timestamp file_stats ((path, new_stat) # rest) events =
     new_files timestamp file_stats rest
       (if map_of file_stats path = None
        then events @ [fs_event timestamp ''created'' path (fs_size new_stat)
                         (fs_permissions new_stat) (str_int (fs_owner new_stat))]
        else events)"

fun modified_files :: "real \<Rightarrow> snapshot \<Rightarrow> snapshot \<Rightarrow> pydict list \<Rightarrow> pydict list" where
  "modified_files timestamp file_stats [] events = events"
| "modified_files timestamp file_stats ((path, new_stat) # rest) events =
     modified_files timestamp file_stats rest
       (case map_of file_stats path of
          None \<Rightarrow> events
        | Some old_stat \<Rightarrow>
            if fs_mtime old_stat \<noteq> fs_mtime new_stat
            then events @ [fs_event timestamp ''modified'' path (fs_size new_stat)
                             (fs_permissions new_stat) (str_int (fs_owner new_stat))]
            else events)"

fun deleted_files :: "real \<Rightarrow> snapshot \<Rightarrow> snapshot \<Rightarrow> pydict list \<Rightarrow> pydict list" where
  "deleted_files timestamp [] current_stats events = events"
| "deleted_files timestamp ((path, old_stat) # rest) current_stats events =
     deleted_files timestamp rest current_stats
       (if map_of current_stats path = None
        then events @ [fs_event timestamp ''deleted'' path 0 '''' '''']
        else events)"

text \<open>
  \<^verbatim>\<open>_detect_changes\<close>, given the clock reading and the snapshot that the rescan built:
  the events, and the new value of \<^verbatim>\<open>self.file_stats\<close>.
\<close>

definition detect_changes :: "real \<Rightarrow> snapshot \<Rightarrow> snapshot \<Rightarrow> pydict list \<times> snapshot" where
  "detect_changes timestamp file_stats current_stats =
     (let events = [];
          events = new_files timestamp file_stats current_stats events;
          events = modified_files timestamp file_stats current_stats events;
          events = deleted_files timestamp file_stats current_stats events
      in (events, current_stats))"

text \<open>
  What each loop of \<^verbatim>\<open>_detect_changes\<close> appends for one entry: one event or none.
  (Used to state what the loops compute.)
\<close>

definition created_for :: "real \<Rightarrow> snapshot \<Rightarrow> string \<times> file_stat \<Rightarrow> pydict list" where
  "created_for ts old e =
     (if map_of old (fst e) = None
      then [fs_event ts ''created'' (fst e) (fs_size (snd e)) (fs_permissions (snd e))
              (str_int (fs_owner (snd e)))]
      else [])"

definition modified_for :: "real \<Rightarrow> snapshot \<Rightarrow> string \<times> file_stat \<Rightarrow> pydict list" where
  "modified_for ts old e =
     (case map_of old (fst e) of
        None \<Rightarrow> []
      | Some old_stat \<Rightarrow>
          if fs_mtime old_stat \<noteq> fs_mtime (snd e)
          then [fs_event ts ''modified'' (fst e) (fs_size (snd e)) (fs_permissions (snd e))
                  (str_int (fs_owner (snd e)))]
          else [])"

definition deleted_for :: "real \<Rightarrow> snapshot \<Rightarrow> string \<times> file_stat \<Rightarrow> pydict list" where
  "deleted_for ts cur e =
     (if map_of cur (fst e) = None then [fs_event ts ''deleted'' (fst e) 0 '''' ''''] else [])"

section \<open>The loops of LogcatMonitor and AppMonitor\<close>

text \<open>
  What the loop meets at one line of the stream: the line that \<^verbatim>\<open>readline\<close> returned,
  the value of \<^verbatim>\<open>self.running\<close> when it is tested, the year of \<^verbatim>\<open>datetime.now()\<close>, and
  the readings of \<^verbatim>\<open>time.time()\<close> when the line is parsed, when the flush condition is
  tested, and after a flush. The stream ends where the list ends.
\<close>

record stream_item =
  si_line :: string
  si_running :: bool
  si_year :: int
  si_parse_time :: real
  si_check_time :: real
  si_flush_time :: real

record logcat_state =
  lc_buffer :: "pydict list"
  lc_batch :: "pydict list"
  lc_last_flush :: real
  lc_db :: database

text \<open>\<^verbatim>\<open>deque(maxlen=n).append(x)\<close>: the oldest entries leave when the deque is full.\<close>

definition deque_append :: "nat \<Rightarrow> 'a list \<Rightarrow> 'a \<Rightarrow> 'a list" where
  "deque_append maxlen buf x = drop (length buf + 1 - maxlen) (buf @ [x])"

text \<open>The final flush after the loop: \<^verbatim>\<open>if batch: insert_batch(table, batch)\<close>.\<close>

definition logcat_final_flush :: "logcat_state \<Rightarrow> py_error option \<times> logcat_state" where
  "logcat_final_flush st =
     (if lc_batch st \<noteq> []
      then (case insert_batch (lc_db st) ''logcat_entries'' (lc_batch st) of
              (err, db') \<Rightarrow> (err, st\<lparr>lc_db := db'\<rparr>))
      else (None, st))"

text \<open>
  How one turn of a \<^verbatim>\<open>for\<close> loop ends: the loop goes on, a \<^verbatim>\<open>break\<close> leaves it, or
  an exception leaves the enclosing \<^verbatim>\<open>try\<close>.
\<close>

datatype 'st turn = Continue 'st | Break 'st | Raised py_error 'st

text \<open>
  The body of the \<^verbatim>\<open>for\<close> loop of \<^verbatim>\<open>LogcatMonitor._monitor_loop\<close>, for one line.
\<close>

definition logcat_turn ::
  "pylib \<Rightarrow> monitor_config \<Rightarrow> logcat_state \<Rightarrow> stream_item \<Rightarrow> logcat_state turn" where
  "logcat_turn lib cfg st it =
     (if \<not> si_running it then Break st
      else
        case parse_logcat_line lib (si_year it) (strip (si_line it)) of
          Inl e \<Rightarrow> Raised e st
        | Inr None \<Rightarrow> Continue st
        | Inr (Some entry) \<Rightarrow>
            (let st1 = st\<lparr>lc_buffer := deque_append (logcat_buffer_size cfg) (lc_buffer st) entry,
                          lc_batch := lc_batch st @ [entry]\<rparr>
             in if length (lc_batch st1) \<ge> 100 \<or> si_check_time it - lc_last_flush st1 > 5
                then (case insert_batch (lc_db st1) ''logcat_entries'' (lc_batch st1) of
                        (Some e, db') \<Rightarrow> Raised e (st1\<lparr>lc_db := db'\<rparr>)
                      | (None, db') \<Rightarrow>
                          Continue (st1\<lparr>lc_db := db', lc_batch := [],
                                       lc_last_flush := si_flush_time it\<rparr>))
                else Continue st1))"

text \<open>
  \<^verbatim>\<open>LogcatMonitor._monitor_loop\<close> from the \<^verbatim>\<open>for\<close> loop on. The \<^verbatim>\<open>try\<close> encloses the
  whole loop and the final flush: an exception of the parser or of the store ends
  the function (it is logged; the first component of the result), the lines that
  follow are not read, and the batch, a local variable, is lost.
\<close>

fun LogcatMonitor_monitor_loop ::
  "pylib \<Rightarrow> monitor_config \<Rightarrow> logcat_state \<Rightarrow> stream_item list
     \<Rightarrow> py_error option \<times> logcat_state" where
  "LogcatMonitor_monitor_loop lib cfg st [] = logcat_final_flush st"
| "LogcatMonitor_monitor_loop lib cfg st (it # its) =
     (case logcat_turn lib cfg st it of
        Continue st' \<Rightarrow> LogcatMonitor_monitor_loop lib cfg st' its
      | Break st' \<Rightarrow> logcat_final_flush st'
      | Raised e st' \<Rightarrow> (Some e, st'))"

record app_state =
  ap_batch :: "pydict list"
  ap_last_flush :: real
  ap_db :: database

definition app_final_flush :: "app_state \<Rightarrow> py_error option \<times> app_state" where
  "app_final_flush st =
     (if ap_batch st \<noteq> []
      then (case insert_batch (ap_db st) ''app_events'' (ap_batch st) of
              (err, db') \<Rightarrow> (err, st\<lparr>ap_db := db'\<rparr>))
      else (None, st))"

text \<open>The body of the \<^verbatim>\<open>for\<close> loop of \<^verbatim>\<open>AppMonitor._monitor_loop\<close>, for one line.\<close>

definition app_turn :: "app_state \<Rightarrow> stream_item \<Rightarrow> app_state turn" where
  "app_turn st it =
     (if \<not> si_running it then Break st
      else
        case parse_app_event (si_parse_time it) (strip (si_line it)) of
          Inl e \<Rightarrow> Raised e st
        | Inr None \<Rightarrow> Continue st
        | Inr (Some event) \<Rightarrow>
            (let st1 = st\<lparr>ap_batch := ap_batch st @ [event]\<rparr>
             in if length (ap_batch st1) \<ge> 50 \<or> si_check_time it - ap_last_flush st1 > 5
                then (case insert_batch (ap_db st1) ''app_events'' (ap_batch st1) of
                        (Some e, db') \<Rightarrow> Raised e (st1\<lparr>ap_db := db'\<rparr>)
                      | (None, db') \<Rightarrow>
                          Continue (st1\<lparr>ap_db := db', ap_batch := [],
                                       ap_last_flush := si_flush_time it\<rparr>))
                else Continue st1))"

text \<open>\<^verbatim>\<open>AppMonitor._monitor_loop\<close> from the \<^verbatim>\<open>for\<close> loop on.\<close>

fun AppMonitor_monitor_loop :: "app_state \<Rightarrow> stream_item list \<Rightarrow> py_error option \<times> app_state" where
  "AppMonitor_monitor_loop st [] = app_final_flush st"
| "AppMonitor_monitor_loop st (it # its) =
     (case app_turn st it of
        Continue st' \<Rightarrow> AppMonitor_monitor_loop st' its
      | Break st' \<Rightarrow> app_final_flush st'
      | Raised e st' \<Rightarrow> (Some e, st'))"

text \<open>
  The keys of the dictionaries that the two parsers return, and the records that a
  stream gives while the loop runs: those of the lines before the first one at which
  \<^verbatim>\<open>running\<close> is found cleared. (Used to state what the loops store.)
\<close>

definition logcat_keys :: "string list" where
  "logcat_keys = [''timestamp'', ''level'', ''tag'', ''pid'', ''message'', ''raw_entry'']"

definition app_keys :: "string list" where
  "app_keys = [''timestamp'', ''package_name'', ''event_type'', ''component'', ''data'']"

fun logcat_entries_of :: "pylib \<Rightarrow> stream_item list \<Rightarrow> pydict list" where
  "logcat_entries_of lib [] = []"
| "logcat_entries_of lib (it # its) =
     (if \<not> si_running it then []
      else case parse_logcat_line lib (si_year it) (strip (si_line it)) of
             Inr (Some entry) \<Rightarrow> entry # logcat_entries_of lib its
           | _ \<Rightarrow> logcat_entries_of lib its)"

fun app_events_of :: "stream_item list \<Rightarrow> pydict list" where
  "app_events_of [] = []"
| "app_events_of (it # its) =
     (if \<not> si_running it then []
      else case parse_app_event (si_parse_time it) (strip (si_line it)) of
             Inr (Some event) \<Rightarrow> event # app_events_of its
           | _ \<Rightarrow> app_events_of its)"

section \<open>Concrete inputs\<close>

text \<open>
  A library for running the model on concrete inputs: seconds since the epoch are
  counted in a calendar of twelve months of 31 days and with no time zone, and the
  formatting functions return fixed text. Every theorem below holds for any library;
  only the evaluations at concrete inputs use this one.
\<close>

definition plain_lib :: pylib where
  "plain_lib =
     \<lparr>dt_timestamp = (\<lambda>d. real_of_int
          (((((dt_year d * 12 + dt_month d) * 31 + dt_day d) * 24 + dt_hour d) * 60
              + dt_minute d) * 60 + dt_second d)),
      json_dumps = (\<lambda>d. ''{}''),
      format_1f = (\<lambda>r. ''?''),
      format_2f = (\<lambda>r. ''?'')\<rparr>"

definition default_config :: monitor_config where
  "default_config =
     \<lparr>logcat_buffer_size = 1000, alert_cpu_threshold = 80, alert_memory_threshold = 85,
      alert_battery_threshold = 20, alert_network_threshold = 100\<rparr>"

definition memory_sample :: "real \<Rightarrow> memory_stats" where
  "memory_sample p =
     \<lparr>ms_timestamp = 0, ms_total = 1000, ms_available = 100, ms_percent = p, ms_used = 900,
      ms_free = 100, ms_swap_total = 0, ms_swap_used = 0, ms_swap_free = 0, ms_meminfo = []\<rparr>"

definition net_sample :: "real \<Rightarrow> int \<Rightarrow> int \<Rightarrow> network_stat" where
  "net_sample t sent recv =
     \<lparr>ns_timestamp = t, ns_interface = ''wlan0'', ns_bytes_sent = sent, ns_bytes_recv = recv,
      ns_packets_sent = 0, ns_packets_recv = 0, ns_errors_in = 0, ns_errors_out = 0\<rparr>"

definition file_at :: "real \<Rightarrow> file_stat" where
  "file_at mtime = \<lparr>fs_size = 10, fs_mtime = mtime, fs_permissions = ''644'', fs_owner = 1000\<rparr>"

definition snapshot_a :: snapshot where
  "snapshot_a = [(''/x'', file_at 1)]"

definition snapshot_b :: snapshot where
  "snapshot_b = [(''/x'', file_at 2), (''/y'', file_at 1)]"

definition snapshot_c :: snapshot where
  "snapshot_c = [(''/y'', file_at 1)]"

definition log_line :: "string \<Rightarrow> real \<Rightarrow> stream_item" where
  "log_line l t =
     \<lparr>si_line = l, si_running = True, si_year = 2026, si_parse_time = t,
      si_check_time = t, si_flush_time = t\<rparr>"

definition hello_line :: string where
  "hello_line = ''01-02 03:04:05.678  12  34 I Tag: hello''"

definition hello_entry :: pydict where
  "hello_entry =
     [(''timestamp'', PyFloat 65120123045), (''level'', PyStr ''I''), (''tag'', PyStr ''Tag''),
      (''pid'', PyInt 12), (''message'', PyStr ''hello''), (''raw_entry'', PyStr hello_line)]"

definition logcat_start :: "database \<Rightarrow> logcat_state" where
  "logcat_start db = \<lparr>lc_buffer = [], lc_batch = [], lc_last_flush = 0, lc_db = db\<rparr>"


section \<open>Properties of the store\<close>

subsection \<open>Schema creation\<close>

lemma table_names_append [simp]:
  "table_names (db\<lparr>db_tables := db_tables db @ [(n, t)]\<rparr>) = insert n (table_names db)"
  by (simp add: table_names_def)

lemma index_names_append [simp]:
  "index_names (db\<lparr>db_indexes := db_indexes db @ [idx]\<rparr>) = insert (fst idx) (index_names db)"
  by (simp add: index_names_def)

lemma index_names_tables_update [simp]:
  "index_names (db\<lparr>db_tables := ts\<rparr>) = index_names db"
  by (simp add: index_names_def)

lemma table_names_indexes_update [simp]:
  "table_names (db\<lparr>db_indexes := is\<rparr>) = table_names db"
  by (simp add: table_names_def)

lemma create_table_effect:
  assumes "create_table_if_not_exists db sch = (None, db')"
  shows "fst sch \<in> table_names db'" and "table_names db \<subseteq> table_names db'"
    and "db_indexes db' = db_indexes db" and "db_closed db' = db_closed db"
  using assms by (auto simp: create_table_if_not_exists_def split: if_splits)

lemma create_tables_effect:
  assumes "execute_all create_table_if_not_exists db xs = (None, db')"
  shows "fst ` set xs \<subseteq> table_names db' \<and> table_names db \<subseteq> table_names db' \<and>
         db_indexes db' = db_indexes db \<and> db_closed db' = db_closed db"
  using assms
proof (induction xs arbitrary: db)
  case Nil
  then show ?case by simp
next
  case (Cons x xs)
  from Cons.prems obtain db1 where
    s1: "create_table_if_not_exists db x = (None, db1)" and
    s2: "execute_all create_table_if_not_exists db1 xs = (None, db')"
    by (auto split: prod.splits option.splits)
  from create_table_effect [OF s1] Cons.IH [OF s2] show ?case
    by auto
qed

lemma create_tables_noop:
  "fst ` set xs \<subseteq> table_names db \<Longrightarrow>
     execute_all create_table_if_not_exists db xs = (None, db)"
  by (induction xs) (auto simp: create_table_if_not_exists_def)

lemma create_index_effect:
  assumes "create_index_if_not_exists db idx = (None, db')"
  shows "index_present db' idx" and "db_tables db' = db_tables db"
    and "index_names db \<subseteq> index_names db'" and "db_closed db' = db_closed db"
  using assms
  by (auto simp: create_index_if_not_exists_def index_present_def
           split: if_splits option.splits)

lemma index_present_mono:
  "index_present db idx \<Longrightarrow> db_tables db' = db_tables db \<Longrightarrow>
   index_names db \<subseteq> index_names db' \<Longrightarrow> index_present db' idx"
  by (auto simp: index_present_def table_names_def)

lemma create_indexes_effect:
  assumes "execute_all create_index_if_not_exists db xs = (None, db')"
  shows "(\<forall>idx \<in> set xs. index_present db' idx) \<and> db_tables db' = db_tables db \<and>
         index_names db \<subseteq> index_names db' \<and> db_closed db' = db_closed db"
  using assms
proof (induction xs arbitrary: db)
  case Nil
  then show ?case by simp
next
  case (Cons x xs)
  from Cons.prems obtain db1 where
    s1: "create_index_if_not_exists db x = (None, db1)" and
    s2: "execute_all create_index_if_not_exists db1 xs = (None, db')"
    by (auto split: prod.splits option.splits)
  note e1 = create_index_effect [OF s1] and e2 = Cons.IH [OF s2]
  have "index_present db' x"
    using e1(1) e2 by (intro index_present_mono [of db1 x db']) simp_all
  with e1 e2 show ?case by auto
qed

lemma create_indexes_noop:
  "\<forall>idx \<in> set xs. index_present db idx \<Longrightarrow>
     execute_all create_index_if_not_exists db xs = (None, db)"
  by (induction xs) (auto simp: create_index_if_not_exists_def index_present_def)

text \<open>On a store file that did not exist, the schema is exactly the eight tables, empty,
  and the eight indexes.\<close>

lemma init_new_database: "init_database new_database = (None, fresh_store)"
  by (simp add: init_database_def new_database_def fresh_store_def schemas_def indexes_def
        create_table_if_not_exists_def create_index_if_not_exists_def
        table_names_def index_names_def)

text \<open>
  Claim C9. Schema initialisation is idempotent: when \<^verbatim>\<open>init_database\<close> has run on a
  store without raising, a second run on the resulting store raises nothing and leaves
  the store as it is: the same tables with the same column definitions and rows, and
  the same indexes.
\<close>

theorem init_database_idempotent:
  "init_database db = (None, db') \<Longrightarrow> init_database db' = (None, db')"
proof -
  assume a: "init_database db = (None, db')"
  then obtain db1 where
    t: "execute_all create_table_if_not_exists (db\<lparr>db_closed := False\<rparr>) schemas = (None, db1)"
    and i: "execute_all create_index_if_not_exists db1 indexes = (None, db')"
    by (auto simp: init_database_def split: prod.splits option.splits)
  note et = create_tables_effect [OF t] and ei = create_indexes_effect [OF i]
  have open': "db'\<lparr>db_closed := False\<rparr> = db'"
    using et ei by simp
  have "fst ` set schemas \<subseteq> table_names db'"
    using et ei by (simp add: table_names_def)
  then have t': "execute_all create_table_if_not_exists db' schemas = (None, db')"
    by (rule create_tables_noop)
  have i': "execute_all create_index_if_not_exists db' indexes = (None, db')"
    using ei by (intro create_indexes_noop) simp
  show ?thesis
    by (simp add: init_database_def open' t' i')
qed

theorem init_database_idempotent_witness:
  "init_database new_database = (None, fresh_store) \<and>
   init_database fresh_store = (None, fresh_store)"
  using init_database_idempotent [OF init_new_database] init_new_database by simp

subsection \<open>Batch insert\<close>

lemma map_of_update_table:
  "map_of (map (\<lambda>(n, t'). if n = tbl then (n, f t') else (n, t')) xs) tbl
     = map_option f (map_of xs tbl)"
  by (induction xs) auto

lemma map_of_update_table_other:
  "tbl' \<noteq> tbl \<Longrightarrow>
   map_of (map (\<lambda>(n, t'). if n = tbl then (n, f t') else (n, t')) xs) tbl' = map_of xs tbl'"
  by (induction xs) auto

lemma rows_of_executemany:
  assumes "executemany db tbl columns vals = (None, db')"
  shows "rows_of db' tbl = rows_of db tbl @ map (zip columns) vals"
  using assms
  by (auto simp: executemany_def rows_of_def Let_def map_of_update_table
           split: if_splits list.splits option.splits bool.splits)

lemma rows_of_executemany_other:
  assumes "executemany db tbl columns vals = (err, db')" and "tbl' \<noteq> tbl"
  shows "rows_of db' tbl' = rows_of db tbl'"
  using assms
  by (auto simp: executemany_def rows_of_def Let_def map_of_update_table_other
           split: if_splits list.splits option.splits bool.splits)

lemma rows_of_executemany_failed:
  assumes "executemany db tbl columns vals = (Some e, db')"
  shows "rows_of db' tbl' = rows_of db tbl'"
  using assms
  by (auto simp: executemany_def rows_of_def Let_def
           split: if_splits list.splits option.splits bool.splits)

lemma insert_batch_rows_other:
  assumes "insert_batch db tbl data = (err, db')" and "tbl' \<noteq> tbl"
  shows "rows_of db' tbl' = rows_of db tbl'"
  using assms rows_of_executemany_other [of db tbl _ _ err db' tbl']
  by (auto simp: insert_batch_def Let_def split: if_splits)

lemma insert_batch_rows_failed:
  assumes "insert_batch db tbl data = (Some e, db')"
  shows "rows_of db' tbl' = rows_of db tbl'"
  using assms rows_of_executemany_failed [of db tbl _ _ e db' tbl']
  by (auto simp: insert_batch_def Let_def split: if_splits)

lemma dict_row_identity:
  assumes "distinct (map fst row)"
  shows "zip (map fst row) (map (dict_get row) (map fst row)) = row"
proof -
  have "(\<lambda>kv. (fst kv, dict_get row (fst kv))) kv = kv" if "kv \<in> set row" for kv
  proof -
    from that have "(fst kv, snd kv) \<in> set row"
      by simp
    with assms have "map_of row (fst kv) = Some (snd kv)"
      by (rule map_of_is_SomeI)
    then show ?thesis
      by (simp add: dict_get_def)
  qed
  then have "map (\<lambda>kv. (fst kv, dict_get row (fst kv))) row = row"
    by (intro map_idI) simp
  then show ?thesis
    by (simp add: zip_map_map zip_same_conv_map comp_def)
qed

lemma insert_batch_single:
  assumes "insert_batch db tbl [row] = (None, db')" and "distinct (map fst row)"
  shows "rows_of db' tbl = rows_of db tbl @ [row]"
proof -
  from assms(1) have "executemany db tbl (map fst row) [map (dict_get row) (map fst row)]
      = (None, db')"
    by (simp add: insert_batch_def Let_def)
  from rows_of_executemany [OF this] dict_row_identity [OF assms(2)] show ?thesis
    by simp
qed

text \<open>
  Claim C10. \<^verbatim>\<open>insert_batch\<close> with an empty batch returns normally and leaves the
  store untouched (whatever its state: closed, faulty, without the table). With a
  non-empty batch that is committed, one row per record is appended, and row \<open>i\<close> binds
  exactly the keys of the first record: a key of the first record that record \<open>i\<close> lacks
  is stored as \<^verbatim>\<open>None\<close> (NULL), and a key of record \<open>i\<close> that the first record lacks is
  not stored.
\<close>

theorem insert_batch_columns_of_first_record:
  "insert_batch db tbl [] = (None, db) \<and>
   (data \<noteq> [] \<and> insert_batch db tbl data = (None, db') \<longrightarrow>
      (\<exists>new. rows_of db' tbl = rows_of db tbl @ new \<and> length new = length data \<and>
         (\<forall>i<length data. \<forall>c.
            map_of (new ! i) c =
              (if c \<in> set (map fst (hd data))
               then Some (case map_of (data ! i) c of None \<Rightarrow> PyNone | Some v \<Rightarrow> v)
               else None))))"
proof (intro conjI impI)
  show "insert_batch db tbl [] = (None, db)"
    by (simp add: insert_batch_def)
next
  assume a: "data \<noteq> [] \<and> insert_batch db tbl data = (None, db')"
  define columns where "columns = map fst (hd data)"
  define new where "new = map (\<lambda>row. zip columns (map (dict_get row) columns)) data"
  from a have ne: "data \<noteq> []" and ib: "insert_batch db tbl data = (None, db')"
    by simp_all
  from ib ne have ex: "executemany db tbl columns (map (\<lambda>row. map (dict_get row) columns) data)
      = (None, db')"
    unfolding insert_batch_def Let_def columns_def by simp
  have r: "rows_of db' tbl = rows_of db tbl @ new"
    using rows_of_executemany [OF ex] by (simp add: new_def comp_def)
  have l: "length new = length data"
    by (simp add: new_def)
  have "map_of (new ! i) c =
      (if c \<in> set columns then Some (dict_get (data ! i) c) else None)"
    if "i < length data" for i c
    using that by (simp add: new_def map_of_zip_map)
  then have c: "map_of (new ! i) c =
      (if c \<in> set (map fst (hd data))
       then Some (case map_of (data ! i) c of None \<Rightarrow> PyNone | Some v \<Rightarrow> v) else None)"
    if "i < length data" for i c
    using that unfolding columns_def dict_get_def by blast
  from r l c show "\<exists>new. rows_of db' tbl = rows_of db tbl @ new \<and> length new = length data \<and>
         (\<forall>i<length data. \<forall>c.
            map_of (new ! i) c =
              (if c \<in> set (map fst (hd data))
               then Some (case map_of (data ! i) c of None \<Rightarrow> PyNone | Some v \<Rightarrow> v)
               else None))"
    by blast
qed

lemma uneven_insert:
  "insert_batch alerts_only_store ''alerts'' uneven_batch =
     (None, alerts_only_store\<lparr>db_tables :=
        [(''alerts'', \<lparr>tbl_columns = snd (last schemas),
            tbl_rows = [[(''module'', PyStr ''a''), (''message'', PyStr ''m'')],
                        [(''module'', PyStr ''b''), (''message'', PyNone)]]\<rparr>)]\<rparr>)"
  by (simp add: insert_batch_def executemany_def alerts_only_store_def uneven_batch_def
        schemas_def dict_get_def)

theorem insert_batch_columns_of_first_record_witness:
  "uneven_batch \<noteq> [] \<and>
   insert_batch alerts_only_store ''alerts'' uneven_batch =
     (None, alerts_only_store\<lparr>db_tables :=
        [(''alerts'', \<lparr>tbl_columns = snd (last schemas),
            tbl_rows = [[(''module'', PyStr ''a''), (''message'', PyStr ''m'')],
                        [(''module'', PyStr ''b''), (''message'', PyNone)]]\<rparr>)]\<rparr>) \<and>
   (\<exists>new. rows_of (alerts_only_store\<lparr>db_tables :=
        [(''alerts'', \<lparr>tbl_columns = snd (last schemas),
            tbl_rows = [[(''module'', PyStr ''a''), (''message'', PyStr ''m'')],
                        [(''module'', PyStr ''b''), (''message'', PyNone)]]\<rparr>)]\<rparr>) ''alerts''
           = rows_of alerts_only_store ''alerts'' @ new \<and>
      length new = 2 \<and>
      map_of (new ! 1) ''message'' = Some PyNone \<and>
      map_of (new ! 1) ''severity'' = None)"
proof -
  have ne: "uneven_batch \<noteq> []"
    by (simp add: uneven_batch_def)
  from insert_batch_columns_of_first_record
    [of alerts_only_store "''alerts''" uneven_batch, THEN conjunct2, rule_format,
     OF conjI [OF ne uneven_insert]]
  obtain new where
    r: "rows_of (alerts_only_store\<lparr>db_tables :=
        [(''alerts'', \<lparr>tbl_columns = snd (last schemas),
            tbl_rows = [[(''module'', PyStr ''a''), (''message'', PyStr ''m'')],
                        [(''module'', PyStr ''b''), (''message'', PyNone)]]\<rparr>)]\<rparr>) ''alerts''
           = rows_of alerts_only_store ''alerts'' @ new"
    and l: "length new = length uneven_batch"
    and c: "\<And>i c. i < length uneven_batch \<Longrightarrow> map_of (new ! i) c =
              (if c \<in> set (map fst (hd uneven_batch))
               then Some (case map_of (uneven_batch ! i) c of None \<Rightarrow> PyNone | Some v \<Rightarrow> v)
               else None)"
    by blast
  have m: "map_of (new ! 1) ''message'' = Some PyNone"
    using c [of 1 "''message''"] by (simp add: uneven_batch_def)
  have s: "map_of (new ! 1) ''severity'' = None"
    using c [of 1 "''severity''"] by (simp add: uneven_batch_def)
  from l have l2: "length new = 2"
    by (simp add: uneven_batch_def)
  from ne uneven_insert r l2 m s show ?thesis
    by blast
qed


section \<open>Properties of the memory collector\<close>

lemma alert_row_keys: "distinct (map fst (alert_row lib modname now message data))"
  by (simp add: alert_row_def)

lemma create_alert_rows:
  assumes "create_alert lib modname db now alert_type message data = (None, db')"
  shows "rows_of db' ''alerts'' = rows_of db ''alerts'' @ [alert_row lib modname now message data]"
  using assms insert_batch_single [OF _ alert_row_keys]
  by (simp add: create_alert_def)

lemma create_alert_failed:
  assumes "create_alert lib modname db now alert_type message data = (Some e, db')"
  shows "rows_of db' tbl = rows_of db tbl"
  using assms insert_batch_rows_failed by (simp add: create_alert_def)

lemma memory_check_rows:
  assumes "MemoryMonitor_check_thresholds lib cfg db now stats = (None, db')"
  shows "rows_of db' ''alerts'' =
           rows_of db ''alerts'' @
             (if ms_percent stats > alert_memory_threshold cfg
              then [memory_alert lib now stats] else [])"
  using assms create_alert_rows
  by (auto simp: MemoryMonitor_check_thresholds_def memory_alert_def split: if_splits)

lemma memory_tick_rows:
  assumes "MemoryMonitor_tick lib cfg db (Inr stats, now) = (None, db')"
  shows "rows_of db' ''alerts'' =
           rows_of db ''alerts'' @
             (if ms_percent stats > alert_memory_threshold cfg
              then [memory_alert lib now stats] else [])"
proof -
  from assms obtain db1 where
    i: "insert_batch db ''memory_stats'' [memory_stats_dict stats] = (None, db1)" and
    c: "MemoryMonitor_check_thresholds lib cfg db1 now stats = (None, db')"
    by (auto simp: MemoryMonitor_tick_def split: prod.splits option.splits)
  have "rows_of db1 ''alerts'' = rows_of db ''alerts''"
    using insert_batch_rows_other [OF i] by simp
  with memory_check_rows [OF c] show ?thesis
    by simp
qed

lemma memory_loop_rows:
  assumes "MemoryMonitor_monitor_loop lib cfg db (map (\<lambda>(s, now). (Inr s, now)) samples)
             = ([], db')"
  shows "rows_of db' ''alerts'' =
           rows_of db ''alerts'' @
             map (\<lambda>(s, now). memory_alert lib now s)
               (filter (\<lambda>(s, now). ms_percent s > alert_memory_threshold cfg) samples)"
  using assms
proof (induction samples arbitrary: db)
  case Nil
  then show ?case by simp
next
  case (Cons x xs)
  obtain s now where x: "x = (s, now)"
    by (cases x)
  from Cons.prems x obtain db1 where
    t: "MemoryMonitor_tick lib cfg db (Inr s, now) = (None, db1)" and
    l: "MemoryMonitor_monitor_loop lib cfg db1 (map (\<lambda>(s, now). (Inr s, now)) xs) = ([], db')"
    by (auto split: prod.splits option.splits)
  from memory_tick_rows [OF t] Cons.IH [OF l] x show ?case
    by simp
qed

text \<open>
  Claim C6. When \<^verbatim>\<open>_check_thresholds\<close> of the memory collector evaluates a sample whose
  \<^verbatim>\<open>percent\<close> is above the threshold, it raises exactly one alert: one insert of one
  row of severity \<^verbatim>\<open>WARNING\<close> into \<^verbatim>\<open>alerts\<close>, which is the one row added when the
  insert returns. A sample at or below the threshold leaves the store as it is.
  Nothing is suppressed: over any run of the loop in which no turn raises, the rows
  added to \<^verbatim>\<open>alerts\<close> are one per sample above the threshold, in order, repeated
  breaches included.
\<close>

theorem memory_alert_per_sample:
  "(ms_percent stats > alert_memory_threshold cfg \<longrightarrow>
      MemoryMonitor_check_thresholds lib cfg db now stats
        = insert_batch db ''alerts'' [memory_alert lib now stats] \<and>
      dict_get (memory_alert lib now stats) ''severity'' = PyStr ''WARNING'' \<and>
      dict_get (memory_alert lib now stats) ''module'' = PyStr ''memory'' \<and>
      (\<forall>db'. MemoryMonitor_check_thresholds lib cfg db now stats = (None, db') \<longrightarrow>
         rows_of db' ''alerts'' = rows_of db ''alerts'' @ [memory_alert lib now stats])) \<and>
   (ms_percent stats \<le> alert_memory_threshold cfg \<longrightarrow>
      MemoryMonitor_check_thresholds lib cfg db now stats = (None, db)) \<and>
   (\<forall>db'. MemoryMonitor_monitor_loop lib cfg db (map (\<lambda>(s, now). (Inr s, now)) samples)
            = ([], db') \<longrightarrow>
      rows_of db' ''alerts'' =
        rows_of db ''alerts'' @
          map (\<lambda>(s, now). memory_alert lib now s)
            (filter (\<lambda>(s, now). ms_percent s > alert_memory_threshold cfg) samples))"
proof (intro conjI impI allI)
  assume "ms_percent stats > alert_memory_threshold cfg"
  then show "MemoryMonitor_check_thresholds lib cfg db now stats
        = insert_batch db ''alerts'' [memory_alert lib now stats]"
    by (simp add: MemoryMonitor_check_thresholds_def create_alert_def memory_alert_def)
next
  show "dict_get (memory_alert lib now stats) ''severity'' = PyStr ''WARNING''"
    by (simp add: memory_alert_def alert_row_def dict_get_def)
next
  show "dict_get (memory_alert lib now stats) ''module'' = PyStr ''memory''"
    by (simp add: memory_alert_def alert_row_def dict_get_def)
next
  fix db'
  assume "ms_percent stats > alert_memory_threshold cfg"
    and "MemoryMonitor_check_thresholds lib cfg db now stats = (None, db')"
  then show "rows_of db' ''alerts'' = rows_of db ''alerts'' @ [memory_alert lib now stats]"
    using memory_check_rows by simp
next
  assume "ms_percent stats \<le> alert_memory_threshold cfg"
  then show "MemoryMonitor_check_thresholds lib cfg db now stats = (None, db)"
    by (simp add: MemoryMonitor_check_thresholds_def)
next
  fix db'
  assume "MemoryMonitor_monitor_loop lib cfg db (map (\<lambda>(s, now). (Inr s, now)) samples)
            = ([], db')"
  then show "rows_of db' ''alerts'' =
        rows_of db ''alerts'' @
          map (\<lambda>(s, now). memory_alert lib now s)
            (filter (\<lambda>(s, now). ms_percent s > alert_memory_threshold cfg) samples)"
    by (rule memory_loop_rows)
qed

text \<open>The definitions that evaluate the store on a concrete input.\<close>

lemmas store_eval = insert_batch_def executemany_def fresh_store_def schemas_def
  dict_get_def rows_of_def

lemma memory_loop_example:
  "fst (MemoryMonitor_monitor_loop plain_lib default_config fresh_store
          (map (\<lambda>(s, now). (Inr s, now))
             [(memory_sample 90, 1), (memory_sample 50, 2), (memory_sample 90, 3)])) = []"
  by (simp add: MemoryMonitor_tick_def MemoryMonitor_check_thresholds_def create_alert_def
        alert_row_def memory_stats_dict_def memory_sample_def default_config_def store_eval)

theorem memory_alert_per_sample_witness:
  "ms_percent (memory_sample 90) > alert_memory_threshold default_config \<and>
   ms_percent (memory_sample 50) \<le> alert_memory_threshold default_config \<and>
   MemoryMonitor_check_thresholds plain_lib default_config fresh_store 1 (memory_sample 50)
     = (None, fresh_store) \<and>
   fst (MemoryMonitor_check_thresholds plain_lib default_config fresh_store 1 (memory_sample 90))
     = None \<and>
   rows_of (snd (MemoryMonitor_check_thresholds plain_lib default_config fresh_store 1
                   (memory_sample 90))) ''alerts''
     = rows_of fresh_store ''alerts'' @ [memory_alert plain_lib 1 (memory_sample 90)] \<and>
   fst (MemoryMonitor_monitor_loop plain_lib default_config fresh_store
          (map (\<lambda>(s, now). (Inr s, now))
             [(memory_sample 90, 1), (memory_sample 50, 2), (memory_sample 90, 3)])) = [] \<and>
   rows_of (snd (MemoryMonitor_monitor_loop plain_lib default_config fresh_store
          (map (\<lambda>(s, now). (Inr s, now))
             [(memory_sample 90, 1), (memory_sample 50, 2), (memory_sample 90, 3)]))) ''alerts''
     = rows_of fresh_store ''alerts'' @
         [memory_alert plain_lib 1 (memory_sample 90), memory_alert plain_lib 3 (memory_sample 90)]"
proof -
  have hi: "ms_percent (memory_sample 90) > alert_memory_threshold default_config"
    and lo: "ms_percent (memory_sample 50) \<le> alert_memory_threshold default_config"
    by (simp_all add: memory_sample_def default_config_def)
  have ok: "fst (MemoryMonitor_check_thresholds plain_lib default_config fresh_store 1
                   (memory_sample 90)) = None"
    by (simp add: MemoryMonitor_check_thresholds_def create_alert_def
        alert_row_def memory_sample_def default_config_def store_eval)
  note t90 = memory_alert_per_sample
    [where stats = "memory_sample 90" and cfg = default_config and lib = plain_lib
       and db = fresh_store and now = 1
       and samples = "[(memory_sample 90, 1), (memory_sample 50, 2), (memory_sample 90, 3)]"]
  note t50 = memory_alert_per_sample
    [where stats = "memory_sample 50" and cfg = default_config and lib = plain_lib
       and db = fresh_store and now = 1 and samples = "[]"]
  from t50 lo have a: "MemoryMonitor_check_thresholds plain_lib default_config fresh_store 1
      (memory_sample 50) = (None, fresh_store)"
    by blast
  from t90 hi ok have b: "rows_of (snd (MemoryMonitor_check_thresholds plain_lib default_config
      fresh_store 1 (memory_sample 90))) ''alerts''
     = rows_of fresh_store ''alerts'' @ [memory_alert plain_lib 1 (memory_sample 90)]"
    by (metis prod.collapse)
  from t90 memory_loop_example have c: "rows_of (snd (MemoryMonitor_monitor_loop plain_lib
      default_config fresh_store (map (\<lambda>(s, now). (Inr s, now))
             [(memory_sample 90, 1), (memory_sample 50, 2), (memory_sample 90, 3)]))) ''alerts''
     = rows_of fresh_store ''alerts'' @
         map (\<lambda>(s, now). memory_alert plain_lib now s)
            (filter (\<lambda>(s, now). ms_percent s > alert_memory_threshold default_config)
               [(memory_sample 90, 1), (memory_sample 50, 2), (memory_sample 90, 3)])"
    by (metis prod.collapse)
  have d: "map (\<lambda>(s, now). memory_alert plain_lib now s)
            (filter (\<lambda>(s, now). ms_percent s > alert_memory_threshold default_config)
               [(memory_sample 90, 1), (memory_sample 50, 2), (memory_sample 90, 3)])
        = [memory_alert plain_lib 1 (memory_sample 90), memory_alert plain_lib 3 (memory_sample 90)]"
    by (simp add: memory_sample_def default_config_def)
  from hi lo a ok b c d memory_loop_example show ?thesis
    by simp
qed


section \<open>Properties of the network collector\<close>

lemma check_rate_first:
  "last_stats (ns_interface stat) = None \<Longrightarrow>
     check_rate lib cfg now last_stats db stat = (None, db)"
  by (simp add: check_rate_def)

lemma check_rate_no_time:
  "last_stats (ns_interface stat) = Some prev \<Longrightarrow> time_diff prev stat \<le> 0 \<Longrightarrow>
     check_rate lib cfg now last_stats db stat = (None, db)"
  by (simp add: check_rate_def)

lemma check_rate_pair:
  "last_stats (ns_interface stat) = Some prev \<Longrightarrow> time_diff prev stat > 0 \<Longrightarrow>
     check_rate lib cfg now last_stats db stat =
       (if mb_rate prev stat > alert_network_threshold cfg
        then insert_batch db ''alerts'' [network_alert lib now prev stat]
        else (None, db))"
  by (simp add: check_rate_def create_alert_def network_alert_def)

lemma network_check_single:
  "NetworkMonitor_check_thresholds lib cfg now last_stats db [stat] =
     (case check_rate lib cfg now last_stats db stat of
        (Some e, db') \<Rightarrow> (Some e, last_stats, db')
      | (None, db') \<Rightarrow> (None, last_stats(ns_interface stat \<mapsto> stat), db'))"
  by (simp split: prod.splits option.splits)

lemma network_alert_keys: "distinct (map fst (network_alert lib now prev stat))"
  by (simp add: network_alert_def alert_row_def)

lemma bytes_rate_sign:
  assumes "time_diff prev stat > 0"
  shows "(0 \<le> bytes_rate prev stat) \<longleftrightarrow>
           0 \<le> (ns_bytes_sent stat - ns_bytes_sent prev) + (ns_bytes_recv stat - ns_bytes_recv prev)"
    and "(bytes_rate prev stat \<le> 0) \<longleftrightarrow>
           (ns_bytes_sent stat - ns_bytes_sent prev) + (ns_bytes_recv stat - ns_bytes_recv prev) \<le> 0"
proof -
  have pos: "(0 \<le> real_of_int d / t) \<longleftrightarrow> 0 \<le> d" and neg: "(real_of_int d / t \<le> 0) \<longleftrightarrow> d \<le> 0"
    if "t > 0" for d :: int and t :: real
    using that by (simp_all add: zero_le_divide_iff divide_le_0_iff)
  show "(0 \<le> bytes_rate prev stat) \<longleftrightarrow>
           0 \<le> (ns_bytes_sent stat - ns_bytes_sent prev) + (ns_bytes_recv stat - ns_bytes_recv prev)"
    unfolding bytes_rate_def using assms by (rule pos)
  show "(bytes_rate prev stat \<le> 0) \<longleftrightarrow>
           (ns_bytes_sent stat - ns_bytes_sent prev) + (ns_bytes_recv stat - ns_bytes_recv prev) \<le> 0"
    unfolding bytes_rate_def using assms by (rule neg)
qed

text \<open>
  Claim C7. For two consecutive samples of an interface, the second later than the
  first and with byte counters that did not decrease, the rate that
  \<^verbatim>\<open>_check_thresholds\<close> computes is the sum of the two byte differences divided by the
  difference of the two timestamps (the configured interval does not enter); it is
  not negative; and the pair raises an alert, one row of severity \<^verbatim>\<open>WARNING\<close>, exactly
  when the rate divided by \<open>1024 * 1024\<close> exceeds the network threshold. Afterwards the
  new sample is the remembered one.
\<close>

theorem network_rate_between_samples:
  assumes "last_stats (ns_interface stat) = Some prev"
    and "ns_timestamp prev < ns_timestamp stat"
    and "ns_bytes_sent prev \<le> ns_bytes_sent stat"
    and "ns_bytes_recv prev \<le> ns_bytes_recv stat"
  shows "bytes_rate prev stat =
           (real_of_int (ns_bytes_sent stat - ns_bytes_sent prev) +
            real_of_int (ns_bytes_recv stat - ns_bytes_recv prev))
           / (ns_timestamp stat - ns_timestamp prev) \<and>
         0 \<le> bytes_rate prev stat \<and>
         check_rate lib cfg now last_stats db stat =
           (if bytes_rate prev stat / (1024 * 1024) > alert_network_threshold cfg
            then insert_batch db ''alerts'' [network_alert lib now prev stat]
            else (None, db)) \<and>
         dict_get (network_alert lib now prev stat) ''severity'' = PyStr ''WARNING'' \<and>
         (\<forall>ls' db'. NetworkMonitor_check_thresholds lib cfg now last_stats db [stat]
                      = (None, ls', db') \<longrightarrow>
            ls' = last_stats(ns_interface stat \<mapsto> stat) \<and>
            rows_of db' ''alerts'' =
              rows_of db ''alerts'' @
                (if bytes_rate prev stat / (1024 * 1024) > alert_network_threshold cfg
                 then [network_alert lib now prev stat] else []))"
proof -
  from assms(2) have td: "time_diff prev stat > 0"
    by (simp add: time_diff_def)
  have rate: "bytes_rate prev stat =
           (real_of_int (ns_bytes_sent stat - ns_bytes_sent prev) +
            real_of_int (ns_bytes_recv stat - ns_bytes_recv prev))
           / (ns_timestamp stat - ns_timestamp prev)"
    by (simp add: bytes_rate_def time_diff_def)
  have nonneg: "0 \<le> bytes_rate prev stat"
    using bytes_rate_sign(1) [OF td] assms(3,4) by simp
  have "check_rate lib cfg now last_stats db stat =
       (if mb_rate prev stat > alert_network_threshold cfg
        then insert_batch db ''alerts'' [network_alert lib now prev stat]
        else (None, db))"
    using assms(1) td by (rule check_rate_pair)
  then have chk: "check_rate lib cfg now last_stats db stat =
           (if bytes_rate prev stat / (1024 * 1024) > alert_network_threshold cfg
            then insert_batch db ''alerts'' [network_alert lib now prev stat]
            else (None, db))"
    by (simp add: mb_rate_def)
  have sev: "dict_get (network_alert lib now prev stat) ''severity'' = PyStr ''WARNING''"
    by (simp add: network_alert_def alert_row_def dict_get_def)
  have loop: "ls' = last_stats(ns_interface stat \<mapsto> stat) \<and>
            rows_of db' ''alerts'' =
              rows_of db ''alerts'' @
                (if bytes_rate prev stat / (1024 * 1024) > alert_network_threshold cfg
                 then [network_alert lib now prev stat] else [])"
    if r: "NetworkMonitor_check_thresholds lib cfg now last_stats db [stat] = (None, ls', db')"
    for ls' db'
  proof -
    from r have c: "check_rate lib cfg now last_stats db stat = (None, db')"
      and l: "ls' = last_stats(ns_interface stat \<mapsto> stat)"
      by (auto simp: network_check_single split: prod.splits option.splits)
    show ?thesis
    proof (cases "bytes_rate prev stat / (1024 * 1024) > alert_network_threshold cfg")
      case True
      with c chk have "insert_batch db ''alerts'' [network_alert lib now prev stat] = (None, db')"
        by simp
      from insert_batch_single [OF this network_alert_keys] True l show ?thesis
        by simp
    next
      case False
      with c chk l show ?thesis
        by simp
    qed
  qed
  from rate nonneg chk sev loop show ?thesis
    by blast
qed

text \<open>
  Claim C1, as the code has it. The evaluation computes no rate and raises no alert
  (it only remembers the sample) on the first sample of an interface and whenever the
  new timestamp is not later than the remembered one. It does not look for a counter
  that decreased: for a pair with a later timestamp the rate is computed whatever the
  counters did, and the pair raises an alert exactly when the rate in MB/s exceeds the
  threshold. The rate is an exact quotient of unbounded integers (nothing wraps); it is
  at most zero when the two byte counters did not grow in sum, and then a threshold
  that is not negative raises no alert.
\<close>

theorem network_check_skips:
  "(last_stats (ns_interface stat) = None \<or>
    (\<exists>prev. last_stats (ns_interface stat) = Some prev \<and>
             ns_timestamp stat \<le> ns_timestamp prev) \<longrightarrow>
      NetworkMonitor_check_thresholds lib cfg now last_stats db [stat]
        = (None, last_stats(ns_interface stat \<mapsto> stat), db)) \<and>
   (last_stats (ns_interface stat) = Some prev \<and> ns_timestamp prev < ns_timestamp stat \<longrightarrow>
      check_rate lib cfg now last_stats db stat =
        (if mb_rate prev stat > alert_network_threshold cfg
         then insert_batch db ''alerts'' [network_alert lib now prev stat]
         else (None, db))) \<and>
   (last_stats (ns_interface stat) = Some prev \<and> ns_timestamp prev < ns_timestamp stat \<and>
    (ns_bytes_sent stat - ns_bytes_sent prev) + (ns_bytes_recv stat - ns_bytes_recv prev) \<le> 0 \<and>
    0 \<le> alert_network_threshold cfg \<longrightarrow>
      bytes_rate prev stat \<le> 0 \<and>
      NetworkMonitor_check_thresholds lib cfg now last_stats db [stat]
        = (None, last_stats(ns_interface stat \<mapsto> stat), db))"
proof (intro conjI impI)
  assume "last_stats (ns_interface stat) = None \<or>
    (\<exists>prev. last_stats (ns_interface stat) = Some prev \<and>
             ns_timestamp stat \<le> ns_timestamp prev)"
  then have "check_rate lib cfg now last_stats db stat = (None, db)"
    by (auto simp: time_diff_def intro: check_rate_first check_rate_no_time)
  then show "NetworkMonitor_check_thresholds lib cfg now last_stats db [stat]
        = (None, last_stats(ns_interface stat \<mapsto> stat), db)"
    by (simp add: network_check_single)
next
  assume "last_stats (ns_interface stat) = Some prev \<and> ns_timestamp prev < ns_timestamp stat"
  then have "last_stats (ns_interface stat) = Some prev" and "time_diff prev stat > 0"
    by (simp_all add: time_diff_def)
  then show "check_rate lib cfg now last_stats db stat =
        (if mb_rate prev stat > alert_network_threshold cfg
         then insert_batch db ''alerts'' [network_alert lib now prev stat]
         else (None, db))"
    by (rule check_rate_pair)
next
  assume a: "last_stats (ns_interface stat) = Some prev \<and> ns_timestamp prev < ns_timestamp stat \<and>
    (ns_bytes_sent stat - ns_bytes_sent prev) + (ns_bytes_recv stat - ns_bytes_recv prev) \<le> 0 \<and>
    0 \<le> alert_network_threshold cfg"
  then have td: "time_diff prev stat > 0"
    by (simp add: time_diff_def)
  from a bytes_rate_sign(2) [OF td] show r: "bytes_rate prev stat \<le> 0"
    by simp
  then have "mb_rate prev stat \<le> 0"
    by (simp add: mb_rate_def divide_le_0_iff)
  with a have "\<not> mb_rate prev stat > alert_network_threshold cfg"
    by simp
  moreover from a have "last_stats (ns_interface stat) = Some prev"
    by simp
  then have "check_rate lib cfg now last_stats db stat =
        (if mb_rate prev stat > alert_network_threshold cfg
         then insert_batch db ''alerts'' [network_alert lib now prev stat]
         else (None, db))"
    using td by (rule check_rate_pair)
  ultimately have "check_rate lib cfg now last_stats db stat = (None, db)"
    by simp
  then show "NetworkMonitor_check_thresholds lib cfg now last_stats db [stat]
        = (None, last_stats(ns_interface stat \<mapsto> stat), db)"
    by (simp add: network_check_single)
qed

text \<open>The definitions that evaluate the network check on a concrete input.\<close>

lemmas network_eval = NetworkMonitor_tick_def check_rate_def create_alert_def alert_row_def
  network_alert_def mb_rate_def bytes_rate_def time_diff_def net_sample_def default_config_def

theorem network_rate_between_samples_witness:
  "[''wlan0'' \<mapsto> net_sample 10 1000 2000] (ns_interface (net_sample 12 1001000 1002000))
      = Some (net_sample 10 1000 2000) \<and>
   ns_timestamp (net_sample 10 1000 2000) < ns_timestamp (net_sample 12 1001000 1002000) \<and>
   ns_bytes_sent (net_sample 10 1000 2000) \<le> ns_bytes_sent (net_sample 12 1001000 1002000) \<and>
   ns_bytes_recv (net_sample 10 1000 2000) \<le> ns_bytes_recv (net_sample 12 1001000 1002000) \<and>
   bytes_rate (net_sample 10 1000 2000) (net_sample 12 1001000 1002000) = 1000000 \<and>
   0 \<le> bytes_rate (net_sample 10 1000 2000) (net_sample 12 1001000 1002000) \<and>
   check_rate plain_lib default_config 13 [''wlan0'' \<mapsto> net_sample 10 1000 2000] fresh_store
       (net_sample 12 1001000 1002000) = (None, fresh_store)"
proof -
  have h1: "[''wlan0'' \<mapsto> net_sample 10 1000 2000] (ns_interface (net_sample 12 1001000 1002000))
      = Some (net_sample 10 1000 2000)"
    and h2: "ns_timestamp (net_sample 10 1000 2000) < ns_timestamp (net_sample 12 1001000 1002000)"
    and h3: "ns_bytes_sent (net_sample 10 1000 2000) \<le> ns_bytes_sent (net_sample 12 1001000 1002000)"
    and h4: "ns_bytes_recv (net_sample 10 1000 2000) \<le> ns_bytes_recv (net_sample 12 1001000 1002000)"
    by (simp_all add: net_sample_def)
  note t = network_rate_between_samples
      [where last_stats = "[''wlan0'' \<mapsto> net_sample 10 1000 2000]"
         and stat = "net_sample 12 1001000 1002000" and prev = "net_sample 10 1000 2000"
         and lib = plain_lib and cfg = default_config and now = 13 and db = fresh_store,
       OF h1 h2 h3 h4]
  have v: "(real_of_int (ns_bytes_sent (net_sample 12 1001000 1002000)
                          - ns_bytes_sent (net_sample 10 1000 2000)) +
            real_of_int (ns_bytes_recv (net_sample 12 1001000 1002000)
                          - ns_bytes_recv (net_sample 10 1000 2000)))
           / (ns_timestamp (net_sample 12 1001000 1002000) - ns_timestamp (net_sample 10 1000 2000))
         = 1000000"
    by (simp add: net_sample_def)
  from t v have r: "bytes_rate (net_sample 10 1000 2000) (net_sample 12 1001000 1002000) = 1000000"
    by simp
  have "\<not> (1000000 :: real) / (1024 * 1024) > alert_network_threshold default_config"
    by (simp add: default_config_def)
  with t r have c: "check_rate plain_lib default_config 13 [''wlan0'' \<mapsto> net_sample 10 1000 2000]
      fresh_store (net_sample 12 1001000 1002000) = (None, fresh_store)"
    by simp
  from h1 h2 h3 h4 r c show ?thesis
    by simp
qed

text \<open>
  A pair whose \<^verbatim>\<open>bytes_sent\<close> decreased (a reset) and whose \<^verbatim>\<open>bytes_recv\<close> grew by
  \<open>10\<^sup>9\<close> in one second: the rate is computed and the pair raises an alert. A pair whose
  counters only decreased: the rate is negative.
\<close>

theorem network_reset_counterexample:
  "ns_bytes_sent (net_sample 11 0 1000000000) < ns_bytes_sent (net_sample 10 5000 0) \<and>
   NetworkMonitor_check_thresholds plain_lib default_config 12
       [''wlan0'' \<mapsto> net_sample 10 5000 0] fresh_store [net_sample 11 0 1000000000]
     = (None, [''wlan0'' \<mapsto> net_sample 11 0 1000000000],
        snd (insert_batch fresh_store ''alerts''
               [network_alert plain_lib 12 (net_sample 10 5000 0) (net_sample 11 0 1000000000)])) \<and>
   rows_of (snd (insert_batch fresh_store ''alerts''
               [network_alert plain_lib 12 (net_sample 10 5000 0) (net_sample 11 0 1000000000)]))
       ''alerts''
     = [network_alert plain_lib 12 (net_sample 10 5000 0) (net_sample 11 0 1000000000)] \<and>
   bytes_rate (net_sample 10 5000 0) (net_sample 11 0 0) = - 5000"
  by (simp add: network_eval store_eval)

theorem network_check_skips_witness:
  "Map.empty (ns_interface (net_sample 10 5000 0)) = None \<and>
   NetworkMonitor_check_thresholds plain_lib default_config 12 Map.empty fresh_store
       [net_sample 10 5000 0]
     = (None, [''wlan0'' \<mapsto> net_sample 10 5000 0], fresh_store) \<and>
   [''wlan0'' \<mapsto> net_sample 10 5000 0] (ns_interface (net_sample 11 0 0))
     = Some (net_sample 10 5000 0) \<and>
   ns_timestamp (net_sample 10 5000 0) < ns_timestamp (net_sample 11 0 0) \<and>
   (ns_bytes_sent (net_sample 11 0 0) - ns_bytes_sent (net_sample 10 5000 0)) +
     (ns_bytes_recv (net_sample 11 0 0) - ns_bytes_recv (net_sample 10 5000 0)) \<le> 0 \<and>
   0 \<le> alert_network_threshold default_config \<and>
   bytes_rate (net_sample 10 5000 0) (net_sample 11 0 0) \<le> 0 \<and>
   NetworkMonitor_check_thresholds plain_lib default_config 12
       [''wlan0'' \<mapsto> net_sample 10 5000 0] fresh_store [net_sample 11 0 0]
     = (None, [''wlan0'' \<mapsto> net_sample 11 0 0], fresh_store)"
proof -
  have f: "Map.empty (ns_interface (net_sample 10 5000 0)) = None"
    by simp
  note t1 = network_check_skips [where last_stats = Map.empty and stat = "net_sample 10 5000 0"
      and lib = plain_lib and cfg = default_config and now = 12 and db = fresh_store,
      THEN conjunct1, rule_format, OF disjI1, OF f]
  have h: "[''wlan0'' \<mapsto> net_sample 10 5000 0] (ns_interface (net_sample 11 0 0))
             = Some (net_sample 10 5000 0) \<and>
           ns_timestamp (net_sample 10 5000 0) < ns_timestamp (net_sample 11 0 0) \<and>
           (ns_bytes_sent (net_sample 11 0 0) - ns_bytes_sent (net_sample 10 5000 0)) +
             (ns_bytes_recv (net_sample 11 0 0) - ns_bytes_recv (net_sample 10 5000 0)) \<le> 0 \<and>
           0 \<le> alert_network_threshold default_config"
    by (simp add: net_sample_def default_config_def)
  note t2 = network_check_skips [where last_stats = "[''wlan0'' \<mapsto> net_sample 10 5000 0]"
      and stat = "net_sample 11 0 0" and prev = "net_sample 10 5000 0"
      and lib = plain_lib and cfg = default_config and now = 12 and db = fresh_store,
      THEN conjunct2, THEN conjunct2, rule_format, OF h]
  have e1: "Map.empty(ns_interface (net_sample 10 5000 0) \<mapsto> net_sample 10 5000 0)
      = [''wlan0'' \<mapsto> net_sample 10 5000 0]"
    and e2: "[''wlan0'' \<mapsto> net_sample 10 5000 0](ns_interface (net_sample 11 0 0) \<mapsto> net_sample 11 0 0)
      = [''wlan0'' \<mapsto> net_sample 11 0 0]"
    by (simp_all add: net_sample_def)
  from f t1 h t2 e1 e2 show ?thesis
    by simp
qed


section \<open>Properties of the filesystem collector\<close>

lemma new_files_concat:
  "new_files ts old cur events = events @ concat (map (created_for ts old) cur)"
  by (induction cur arbitrary: events) (auto simp: created_for_def)

lemma modified_files_concat:
  "modified_files ts old cur events = events @ concat (map (modified_for ts old) cur)"
  by (induction cur arbitrary: events) (auto simp: modified_for_def split: option.splits)

lemma deleted_files_concat:
  "deleted_files ts old cur events = events @ concat (map (deleted_for ts cur) old)"
  by (induction old arbitrary: events) (auto simp: deleted_for_def)

lemma detect_changes_concat:
  "detect_changes ts old cur =
     (concat (map (created_for ts old) cur) @ concat (map (modified_for ts old) cur) @
      concat (map (deleted_for ts cur) old), cur)"
  by (simp add: detect_changes_def new_files_concat modified_files_concat deleted_files_concat)

lemma fs_event_path [simp]: "dict_get (fs_event ts ty p sz perm own) ''path'' = PyStr p"
  by (simp add: fs_event_def dict_get_def)

text \<open>
  Events made per entry, each carrying the path of its entry: those of one path are the
  events of the entry of that path, when the paths are distinct.
\<close>

lemma events_of_path:
  assumes "distinct (map fst xs)"
    and "\<And>e ev. ev \<in> set (g e) \<Longrightarrow> dict_get ev ''path'' = PyStr (fst e)"
  shows "filter (\<lambda>ev. dict_get ev ''path'' = PyStr p) (concat (map g xs)) =
           (case map_of xs p of None \<Rightarrow> [] | Some st \<Rightarrow> g (p, st))"
  using assms(1)
proof (induction xs)
  case Nil
  then show ?case by simp
next
  case (Cons x xs)
  obtain q st where x: "x = (q, st)"
    by (cases x)
  show ?case
  proof (cases "q = p")
    case True
    with Cons.prems x have "map_of xs p = None"
      by (simp add: map_of_eq_None_iff)
    with Cons.IH Cons.prems have rest: "filter (\<lambda>ev. dict_get ev ''path'' = PyStr p)
        (concat (map g xs)) = []"
      by simp
    have "filter (\<lambda>ev. dict_get ev ''path'' = PyStr p) (g x) = g x"
      using assms(2) [of _ x] x True by (intro filter_True) simp
    with rest x True show ?thesis
      by simp
  next
    case False
    have "filter (\<lambda>ev. dict_get ev ''path'' = PyStr p) (g x) = []"
      using assms(2) [of _ x] x False by (auto simp: filter_empty_conv)
    with Cons.IH Cons.prems x False show ?thesis
      by simp
  qed
qed

lemma created_for_path: "ev \<in> set (created_for ts old e) \<Longrightarrow> dict_get ev ''path'' = PyStr (fst e)"
  by (auto simp: created_for_def split: if_splits)

lemma modified_for_path: "ev \<in> set (modified_for ts old e) \<Longrightarrow> dict_get ev ''path'' = PyStr (fst e)"
  by (auto simp: modified_for_def split: if_splits option.splits)

lemma deleted_for_path: "ev \<in> set (deleted_for ts cur e) \<Longrightarrow> dict_get ev ''path'' = PyStr (fst e)"
  by (auto simp: deleted_for_def split: if_splits)

text \<open>
  Claim C8. With the previous snapshot and the rescanned one (dictionaries: their paths
  are distinct), \<^verbatim>\<open>_detect_changes\<close> stores the rescanned snapshot, every event carries
  a path, and the events of a path \<open>p\<close> are exactly: one \<^verbatim>\<open>created\<close> when \<open>p\<close> is new, one
  \<^verbatim>\<open>modified\<close> when \<open>p\<close> is in both with a different mtime, one \<^verbatim>\<open>deleted\<close> with size 0 and
  empty permissions and owner when \<open>p\<close> is gone, and none otherwise.
\<close>

theorem detect_changes_events:
  assumes "distinct (map fst file_stats)" and "distinct (map fst current_stats)"
  shows "snd (detect_changes ts file_stats current_stats) = current_stats \<and>
         (\<forall>ev \<in> set (fst (detect_changes ts file_stats current_stats)).
            \<exists>p. dict_get ev ''path'' = PyStr p) \<and>
         (\<forall>p. filter (\<lambda>ev. dict_get ev ''path'' = PyStr p)
                 (fst (detect_changes ts file_stats current_stats)) =
               (case (map_of file_stats p, map_of current_stats p) of
                  (None, None) \<Rightarrow> []
                | (None, Some new_stat) \<Rightarrow>
                    [fs_event ts ''created'' p (fs_size new_stat) (fs_permissions new_stat)
                       (str_int (fs_owner new_stat))]
                | (Some old_stat, Some new_stat) \<Rightarrow>
                    if fs_mtime old_stat \<noteq> fs_mtime new_stat
                    then [fs_event ts ''modified'' p (fs_size new_stat) (fs_permissions new_stat)
                            (str_int (fs_owner new_stat))]
                    else []
                | (Some old_stat, None) \<Rightarrow> [fs_event ts ''deleted'' p 0 '''' '''']))"
proof (intro conjI ballI allI)
  show "snd (detect_changes ts file_stats current_stats) = current_stats"
    by (simp add: detect_changes_concat)
next
  fix ev
  assume "ev \<in> set (fst (detect_changes ts file_stats current_stats))"
  then show "\<exists>p. dict_get ev ''path'' = PyStr p"
    using created_for_path modified_for_path deleted_for_path
    by (fastforce simp: detect_changes_concat)
next
  fix p
  have c: "filter (\<lambda>ev. dict_get ev ''path'' = PyStr p)
             (concat (map (created_for ts file_stats) current_stats)) =
           (case map_of current_stats p of None \<Rightarrow> []
            | Some st \<Rightarrow> created_for ts file_stats (p, st))"
    using assms(2) created_for_path by (rule events_of_path)
  have m: "filter (\<lambda>ev. dict_get ev ''path'' = PyStr p)
             (concat (map (modified_for ts file_stats) current_stats)) =
           (case map_of current_stats p of None \<Rightarrow> []
            | Some st \<Rightarrow> modified_for ts file_stats (p, st))"
    using assms(2) modified_for_path by (rule events_of_path)
  have d: "filter (\<lambda>ev. dict_get ev ''path'' = PyStr p)
             (concat (map (deleted_for ts current_stats) file_stats)) =
           (case map_of file_stats p of None \<Rightarrow> []
            | Some st \<Rightarrow> deleted_for ts current_stats (p, st))"
    using assms(1) deleted_for_path by (rule events_of_path)
  show "filter (\<lambda>ev. dict_get ev ''path'' = PyStr p)
                 (fst (detect_changes ts file_stats current_stats)) =
               (case (map_of file_stats p, map_of current_stats p) of
                  (None, None) \<Rightarrow> []
                | (None, Some new_stat) \<Rightarrow>
                    [fs_event ts ''created'' p (fs_size new_stat) (fs_permissions new_stat)
                       (str_int (fs_owner new_stat))]
                | (Some old_stat, Some new_stat) \<Rightarrow>
                    if fs_mtime old_stat \<noteq> fs_mtime new_stat
                    then [fs_event ts ''modified'' p (fs_size new_stat) (fs_permissions new_stat)
                            (str_int (fs_owner new_stat))]
                    else []
                | (Some old_stat, None) \<Rightarrow> [fs_event ts ''deleted'' p 0 '''' ''''])"
    by (simp add: detect_changes_concat c m d created_for_def modified_for_def deleted_for_def
          split: option.splits)
qed

lemma str_int_1000: "str_int 1000 = ''1000''"
  by (simp add: str_int_def str_nat.simps digit_char_def)

text \<open>The example of the specification: snapshot A, then B, then C.\<close>

lemma detect_a_b:
  "detect_changes 5 snapshot_a snapshot_b =
     ([fs_event 5 ''created'' ''/y'' 10 ''644'' ''1000'',
       fs_event 5 ''modified'' ''/x'' 10 ''644'' ''1000''], snapshot_b)"
  by (simp add: detect_changes_def snapshot_a_def snapshot_b_def file_at_def str_int_1000)

lemma detect_b_c:
  "detect_changes 6 snapshot_b snapshot_c =
     ([fs_event 6 ''deleted'' ''/x'' 0 '''' ''''], snapshot_c)"
  by (simp add: detect_changes_def snapshot_b_def snapshot_c_def file_at_def)

theorem detect_changes_events_witness:
  "distinct (map fst snapshot_a) \<and> distinct (map fst snapshot_b) \<and>
   detect_changes 5 snapshot_a snapshot_b =
     ([fs_event 5 ''created'' ''/y'' 10 ''644'' ''1000'',
       fs_event 5 ''modified'' ''/x'' 10 ''644'' ''1000''], snapshot_b) \<and>
   filter (\<lambda>ev. dict_get ev ''path'' = PyStr ''/x'') (fst (detect_changes 5 snapshot_a snapshot_b))
     = [fs_event 5 ''modified'' ''/x'' 10 ''644'' ''1000''] \<and>
   filter (\<lambda>ev. dict_get ev ''path'' = PyStr ''/y'') (fst (detect_changes 5 snapshot_a snapshot_b))
     = [fs_event 5 ''created'' ''/y'' 10 ''644'' ''1000''] \<and>
   detect_changes 6 snapshot_b snapshot_c = ([fs_event 6 ''deleted'' ''/x'' 0 '''' ''''], snapshot_c)"
proof -
  have da: "distinct (map fst snapshot_a)" and db: "distinct (map fst snapshot_b)"
    by (simp_all add: snapshot_a_def snapshot_b_def)
  note t = detect_changes_events [OF da db, of 5]
  from t have x: "filter (\<lambda>ev. dict_get ev ''path'' = PyStr ''/x'')
      (fst (detect_changes 5 snapshot_a snapshot_b))
     = [fs_event 5 ''modified'' ''/x'' 10 ''644'' ''1000'']"
    by (simp add: snapshot_a_def snapshot_b_def file_at_def str_int_1000)
  from t have y: "filter (\<lambda>ev. dict_get ev ''path'' = PyStr ''/y'')
      (fst (detect_changes 5 snapshot_a snapshot_b))
     = [fs_event 5 ''created'' ''/y'' 10 ''644'' ''1000'']"
    by (simp add: snapshot_a_def snapshot_b_def file_at_def str_int_1000)
  from da db detect_a_b x y detect_b_c show ?thesis
    by simp
qed


section \<open>Properties of the log-stream loops\<close>

lemma insert_batch_uniform:
  assumes "insert_batch db tbl data = (None, db')"
    and "\<forall>row \<in> set data. map fst row = keys" and "distinct keys"
  shows "rows_of db' tbl = rows_of db tbl @ data"
proof (cases "data = []")
  case True
  with assms(1) show ?thesis
    by (simp add: insert_batch_def)
next
  case False
  with assms(2) have hd: "map fst (hd data) = keys"
    by (cases data) simp_all
  from assms(1) False hd
  have "executemany db tbl keys (map (\<lambda>row. map (dict_get row) keys) data) = (None, db')"
    by (simp add: insert_batch_def Let_def)
  from rows_of_executemany [OF this]
  have r: "rows_of db' tbl = rows_of db tbl @ map (\<lambda>row. zip keys (map (dict_get row) keys)) data"
    by (simp add: comp_def)
  have "zip keys (map (dict_get row) keys) = row" if "row \<in> set data" for row
    using that assms(2,3) dict_row_identity [of row] by auto
  then have "map (\<lambda>row. zip keys (map (dict_get row) keys)) data = data"
    by (intro map_idI) simp
  with r show ?thesis
    by simp
qed

lemma logcat_keys_distinct: "distinct logcat_keys"
  by (simp add: logcat_keys_def)

lemma app_keys_distinct: "distinct app_keys"
  by (simp add: app_keys_def)

lemma and_then_Inr:
  "and_then r f = Inr y \<Longrightarrow> \<exists>x. r = Inr x \<and> f x = Inr y"
  by (cases r) (simp_all add: and_then_def)

lemma parse_logcat_line_keys:
  assumes "parse_logcat_line lib y line = Inr (Some entry)"
  shows "map fst entry = logcat_keys"
proof -
  from assms obtain g1 g2 g3 g4 g5 g6 where
    "re_match log_pattern line = Some [g1, g2, g3, g4, g5, g6]"
    by (auto simp: parse_logcat_line_def split: option.splits list.splits)
  with assms show ?thesis
    by (auto simp: parse_logcat_line_def Let_def logcat_keys_def dest!: and_then_Inr)
qed

lemma parse_app_event_keys:
  assumes "parse_app_event t line = Inr (Some event)"
  shows "map fst event = app_keys"
  using assms
  by (auto simp: parse_app_event_def app_keys_def plain_app_event_def
           split: option.splits dest!: and_then_Inr)

lemma logcat_final_flush_rows:
  assumes "logcat_final_flush st = (None, st')"
    and "\<forall>row \<in> set (lc_batch st). map fst row = logcat_keys"
  shows "rows_of (lc_db st') ''logcat_entries'' =
           rows_of (lc_db st) ''logcat_entries'' @ lc_batch st"
proof (cases "lc_batch st = []")
  case True
  with assms(1) show ?thesis
    by (simp add: logcat_final_flush_def)
next
  case False
  with assms(1) obtain db' where
    i: "insert_batch (lc_db st) ''logcat_entries'' (lc_batch st) = (None, db')"
    and s: "st' = st\<lparr>lc_db := db'\<rparr>"
    by (auto simp: logcat_final_flush_def split: prod.splits)
  from insert_batch_uniform [OF i assms(2) logcat_keys_distinct] s show ?thesis
    by simp
qed

lemma logcat_turn_cases:
  assumes "logcat_turn lib cfg st it = Continue st'"
    and "\<forall>row \<in> set (lc_batch st). map fst row = logcat_keys"
  shows "(\<forall>row \<in> set (lc_batch st'). map fst row = logcat_keys) \<and>
         rows_of (lc_db st') ''logcat_entries'' @ lc_batch st' =
           rows_of (lc_db st) ''logcat_entries'' @ lc_batch st @
             (case parse_logcat_line lib (si_year it) (strip (si_line it)) of
                Inr (Some entry) \<Rightarrow> [entry] | _ \<Rightarrow> []) \<and>
         si_running it"
proof -
  from assms(1) have run: "si_running it"
    by (auto simp: logcat_turn_def split: if_splits)
  show ?thesis
  proof (cases "parse_logcat_line lib (si_year it) (strip (si_line it))")
    case (Inl e)
    with assms(1) run show ?thesis
      by (simp add: logcat_turn_def)
  next
    case (Inr r)
    show ?thesis
    proof (cases r)
      case None
      with Inr assms run show ?thesis
        by (simp add: logcat_turn_def)
    next
      case (Some entry)
      from Inr Some have k: "map fst entry = logcat_keys"
        by (simp add: parse_logcat_line_keys)
      with assms(2) have u: "\<forall>row \<in> set (lc_batch st @ [entry]). map fst row = logcat_keys"
        by simp
      show ?thesis
      proof (cases "length (lc_batch st) + 1 \<ge> 100 \<or> si_check_time it - lc_last_flush st > 5")
        case True
        with assms(1) run Inr Some obtain db' where
          i: "insert_batch (lc_db st) ''logcat_entries'' (lc_batch st @ [entry]) = (None, db')"
          and s: "lc_db st' = db'" "lc_batch st' = []"
          by (auto simp: logcat_turn_def Let_def split: prod.splits option.splits if_splits)
        from insert_batch_uniform [OF i u logcat_keys_distinct] s run Inr Some show ?thesis
          by simp
      next
        case False
        with assms(1) run Inr Some have "lc_db st' = lc_db st" "lc_batch st' = lc_batch st @ [entry]"
          by (auto simp: logcat_turn_def Let_def)
        with u run Inr Some show ?thesis
          by simp
      qed
    qed
  qed
qed

lemma logcat_loop_stores_all:
  assumes "LogcatMonitor_monitor_loop lib cfg st its = (None, st')"
    and "\<forall>row \<in> set (lc_batch st). map fst row = logcat_keys"
  shows "rows_of (lc_db st') ''logcat_entries'' =
           rows_of (lc_db st) ''logcat_entries'' @ lc_batch st @ logcat_entries_of lib its"
  using assms
proof (induction its arbitrary: st)
  case Nil
  then show ?case
    by (simp add: logcat_final_flush_rows)
next
  case (Cons it its)
  show ?case
  proof (cases "logcat_turn lib cfg st it")
    case (Continue st1)
    with Cons.prems have l: "LogcatMonitor_monitor_loop lib cfg st1 its = (None, st')"
      by simp
    note c = logcat_turn_cases [OF Continue Cons.prems(2)]
    from c have u1: "\<forall>row \<in> set (lc_batch st1). map fst row = logcat_keys"
      by simp
    from Cons.IH [OF l u1] c show ?thesis
      by (auto split: sum.splits option.splits)
  next
    case (Break st1)
    then have "st1 = st" and "\<not> si_running it"
      by (auto simp: logcat_turn_def Let_def split: if_splits sum.splits option.splits prod.splits)
    with Break Cons.prems show ?thesis
      by (simp add: logcat_final_flush_rows)
  next
    case (Raised e st1)
    with Cons.prems show ?thesis
      by simp
  qed
qed

lemma app_final_flush_rows:
  assumes "app_final_flush st = (None, st')"
    and "\<forall>row \<in> set (ap_batch st). map fst row = app_keys"
  shows "rows_of (ap_db st') ''app_events'' =
           rows_of (ap_db st) ''app_events'' @ ap_batch st"
proof (cases "ap_batch st = []")
  case True
  with assms(1) show ?thesis
    by (simp add: app_final_flush_def)
next
  case False
  with assms(1) obtain db' where
    i: "insert_batch (ap_db st) ''app_events'' (ap_batch st) = (None, db')"
    and s: "st' = st\<lparr>ap_db := db'\<rparr>"
    by (auto simp: app_final_flush_def split: prod.splits)
  from insert_batch_uniform [OF i assms(2) app_keys_distinct] s show ?thesis
    by simp
qed

lemma app_turn_cases:
  assumes "app_turn st it = Continue st'"
    and "\<forall>row \<in> set (ap_batch st). map fst row = app_keys"
  shows "(\<forall>row \<in> set (ap_batch st'). map fst row = app_keys) \<and>
         rows_of (ap_db st') ''app_events'' @ ap_batch st' =
           rows_of (ap_db st) ''app_events'' @ ap_batch st @
             (case parse_app_event (si_parse_time it) (strip (si_line it)) of
                Inr (Some event) \<Rightarrow> [event] | _ \<Rightarrow> []) \<and>
         si_running it"
proof -
  from assms(1) have run: "si_running it"
    by (auto simp: app_turn_def split: if_splits)
  show ?thesis
  proof (cases "parse_app_event (si_parse_time it) (strip (si_line it))")
    case (Inl e)
    with assms(1) run show ?thesis
      by (simp add: app_turn_def)
  next
    case (Inr r)
    show ?thesis
    proof (cases r)
      case None
      with Inr assms run show ?thesis
        by (simp add: app_turn_def)
    next
      case (Some event)
      from Inr Some have k: "map fst event = app_keys"
        by (simp add: parse_app_event_keys)
      with assms(2) have u: "\<forall>row \<in> set (ap_batch st @ [event]). map fst row = app_keys"
        by simp
      show ?thesis
      proof (cases "length (ap_batch st) + 1 \<ge> 50 \<or> si_check_time it - ap_last_flush st > 5")
        case True
        with assms(1) run Inr Some obtain db' where
          i: "insert_batch (ap_db st) ''app_events'' (ap_batch st @ [event]) = (None, db')"
          and s: "ap_db st' = db'" "ap_batch st' = []"
          by (auto simp: app_turn_def Let_def split: prod.splits option.splits if_splits)
        from insert_batch_uniform [OF i u app_keys_distinct] s run Inr Some show ?thesis
          by simp
      next
        case False
        with assms(1) run Inr Some have "ap_db st' = ap_db st" "ap_batch st' = ap_batch st @ [event]"
          by (auto simp: app_turn_def Let_def)
        with u run Inr Some show ?thesis
          by simp
      qed
    qed
  qed
qed

lemma app_loop_stores_all:
  assumes "AppMonitor_monitor_loop st its = (None, st')"
    and "\<forall>row \<in> set (ap_batch st). map fst row = app_keys"
  shows "rows_of (ap_db st') ''app_events'' =
           rows_of (ap_db st) ''app_events'' @ ap_batch st @ app_events_of its"
  using assms
proof (induction its arbitrary: st)
  case Nil
  then show ?case
    by (simp add: app_final_flush_rows)
next
  case (Cons it its)
  show ?case
  proof (cases "app_turn st it")
    case (Continue st1)
    with Cons.prems have l: "AppMonitor_monitor_loop st1 its = (None, st')"
      by simp
    note c = app_turn_cases [OF Continue Cons.prems(2)]
    from c have u1: "\<forall>row \<in> set (ap_batch st1). map fst row = app_keys"
      by simp
    from Cons.IH [OF l u1] c show ?thesis
      by (auto split: sum.splits option.splits)
  next
    case (Break st1)
    then have "st1 = st" and "\<not> si_running it"
      by (auto simp: app_turn_def Let_def split: if_splits sum.splits option.splits prod.splits)
    with Break Cons.prems show ?thesis
      by (simp add: app_final_flush_rows)
  next
    case (Raised e st1)
    with Cons.prems show ?thesis
      by simp
  qed
qed

lemma logcat_turn_record:
  assumes "si_running it"
    and "parse_logcat_line lib (si_year it) (strip (si_line it)) = Inr (Some entry)"
  shows "logcat_turn lib cfg st it =
     (if length (lc_batch st) + 1 \<ge> 100 \<or> si_check_time it - lc_last_flush st > 5
      then (case insert_batch (lc_db st) ''logcat_entries'' (lc_batch st @ [entry]) of
              (Some e, db') \<Rightarrow>
                Raised e (st\<lparr>lc_buffer := deque_append (logcat_buffer_size cfg) (lc_buffer st) entry,
                              lc_batch := lc_batch st @ [entry], lc_db := db'\<rparr>)
            | (None, db') \<Rightarrow>
                Continue (st\<lparr>lc_buffer := deque_append (logcat_buffer_size cfg) (lc_buffer st) entry,
                              lc_batch := [], lc_db := db', lc_last_flush := si_flush_time it\<rparr>))
      else Continue (st\<lparr>lc_buffer := deque_append (logcat_buffer_size cfg) (lc_buffer st) entry,
                         lc_batch := lc_batch st @ [entry]\<rparr>))"
  using assms by (simp add: logcat_turn_def Let_def split: prod.splits option.splits)

lemma app_turn_record:
  assumes "si_running it"
    and "parse_app_event (si_parse_time it) (strip (si_line it)) = Inr (Some event)"
  shows "app_turn st it =
     (if length (ap_batch st) + 1 \<ge> 50 \<or> si_check_time it - ap_last_flush st > 5
      then (case insert_batch (ap_db st) ''app_events'' (ap_batch st @ [event]) of
              (Some e, db') \<Rightarrow> Raised e (st\<lparr>ap_batch := ap_batch st @ [event], ap_db := db'\<rparr>)
            | (None, db') \<Rightarrow>
                Continue (st\<lparr>ap_batch := [], ap_db := db', ap_last_flush := si_flush_time it\<rparr>))
      else Continue (st\<lparr>ap_batch := ap_batch st @ [event]\<rparr>))"
  using assms by (simp add: app_turn_def Let_def split: prod.splits option.splits)

text \<open>
  Claim C4, as the code has it. The loops test the flush condition only in a turn
  that parsed a record, after the record joined the batch. The Logcat loop then
  flushes when the batch holds at least 100 records or the clock reads more than 5
  seconds past the last flush; the App loop when the batch holds at least 50 records
  or more than 5 seconds have passed. A turn without a record flushes nothing,
  whatever the time. When the loop ends without an exception, at the end of the stream
  or at the first line at which \<^verbatim>\<open>running\<close> is cleared, every record parsed before is
  in the store, in order: the pending batch has been flushed.
\<close>

theorem log_stream_flush_policy:
  "(si_running it \<and>
    parse_logcat_line lib (si_year it) (strip (si_line it)) = Inr (Some entry) \<longrightarrow>
      logcat_turn lib cfg st it =
        (if length (lc_batch st) + 1 \<ge> 100 \<or> si_check_time it - lc_last_flush st > 5
         then (case insert_batch (lc_db st) ''logcat_entries'' (lc_batch st @ [entry]) of
                 (Some e, db') \<Rightarrow>
                   Raised e (st\<lparr>lc_buffer :=
                                   deque_append (logcat_buffer_size cfg) (lc_buffer st) entry,
                                 lc_batch := lc_batch st @ [entry], lc_db := db'\<rparr>)
               | (None, db') \<Rightarrow>
                   Continue (st\<lparr>lc_buffer :=
                                   deque_append (logcat_buffer_size cfg) (lc_buffer st) entry,
                                 lc_batch := [], lc_db := db',
                                 lc_last_flush := si_flush_time it\<rparr>))
         else Continue (st\<lparr>lc_buffer :=
                              deque_append (logcat_buffer_size cfg) (lc_buffer st) entry,
                            lc_batch := lc_batch st @ [entry]\<rparr>))) \<and>
   (si_running it \<and>
    parse_logcat_line lib (si_year it) (strip (si_line it)) = Inr None \<longrightarrow>
      logcat_turn lib cfg st it = Continue st) \<and>
   (si_running it \<and>
    parse_app_event (si_parse_time it) (strip (si_line it)) = Inr (Some event) \<longrightarrow>
      app_turn ast it =
        (if length (ap_batch ast) + 1 \<ge> 50 \<or> si_check_time it - ap_last_flush ast > 5
         then (case insert_batch (ap_db ast) ''app_events'' (ap_batch ast @ [event]) of
                 (Some e, db') \<Rightarrow>
                   Raised e (ast\<lparr>ap_batch := ap_batch ast @ [event], ap_db := db'\<rparr>)
               | (None, db') \<Rightarrow>
                   Continue (ast\<lparr>ap_batch := [], ap_db := db',
                                  ap_last_flush := si_flush_time it\<rparr>))
         else Continue (ast\<lparr>ap_batch := ap_batch ast @ [event]\<rparr>))) \<and>
   (si_running it \<and>
    parse_app_event (si_parse_time it) (strip (si_line it)) = Inr None \<longrightarrow>
      app_turn ast it = Continue ast) \<and>
   (\<forall>st'. LogcatMonitor_monitor_loop lib cfg st its = (None, st') \<and>
           (\<forall>row \<in> set (lc_batch st). map fst row = logcat_keys) \<longrightarrow>
      rows_of (lc_db st') ''logcat_entries'' =
        rows_of (lc_db st) ''logcat_entries'' @ lc_batch st @ logcat_entries_of lib its) \<and>
   (\<forall>ast'. AppMonitor_monitor_loop ast its = (None, ast') \<and>
            (\<forall>row \<in> set (ap_batch ast). map fst row = app_keys) \<longrightarrow>
      rows_of (ap_db ast') ''app_events'' =
        rows_of (ap_db ast) ''app_events'' @ ap_batch ast @ app_events_of its)"
proof (intro conjI impI allI)
  assume "si_running it \<and>
    parse_logcat_line lib (si_year it) (strip (si_line it)) = Inr (Some entry)"
  then have "si_running it"
    and "parse_logcat_line lib (si_year it) (strip (si_line it)) = Inr (Some entry)"
    by simp_all
  then show "logcat_turn lib cfg st it =
        (if length (lc_batch st) + 1 \<ge> 100 \<or> si_check_time it - lc_last_flush st > 5
         then (case insert_batch (lc_db st) ''logcat_entries'' (lc_batch st @ [entry]) of
                 (Some e, db') \<Rightarrow>
                   Raised e (st\<lparr>lc_buffer :=
                                   deque_append (logcat_buffer_size cfg) (lc_buffer st) entry,
                                 lc_batch := lc_batch st @ [entry], lc_db := db'\<rparr>)
               | (None, db') \<Rightarrow>
                   Continue (st\<lparr>lc_buffer :=
                                   deque_append (logcat_buffer_size cfg) (lc_buffer st) entry,
                                 lc_batch := [], lc_db := db',
                                 lc_last_flush := si_flush_time it\<rparr>))
         else Continue (st\<lparr>lc_buffer :=
                              deque_append (logcat_buffer_size cfg) (lc_buffer st) entry,
                            lc_batch := lc_batch st @ [entry]\<rparr>))"
    by (rule logcat_turn_record)
next
  assume "si_running it \<and>
    parse_logcat_line lib (si_year it) (strip (si_line it)) = Inr None"
  then show "logcat_turn lib cfg st it = Continue st"
    by (simp add: logcat_turn_def)
next
  assume "si_running it \<and>
    parse_app_event (si_parse_time it) (strip (si_line it)) = Inr (Some event)"
  then have "si_running it"
    and "parse_app_event (si_parse_time it) (strip (si_line it)) = Inr (Some event)"
    by simp_all
  then show "app_turn ast it =
        (if length (ap_batch ast) + 1 \<ge> 50 \<or> si_check_time it - ap_last_flush ast > 5
         then (case insert_batch (ap_db ast) ''app_events'' (ap_batch ast @ [event]) of
                 (Some e, db') \<Rightarrow>
                   Raised e (ast\<lparr>ap_batch := ap_batch ast @ [event], ap_db := db'\<rparr>)
               | (None, db') \<Rightarrow>
                   Continue (ast\<lparr>ap_batch := [], ap_db := db',
                                  ap_last_flush := si_flush_time it\<rparr>))
         else Continue (ast\<lparr>ap_batch := ap_batch ast @ [event]\<rparr>))"
    by (rule app_turn_record)
next
  assume "si_running it \<and>
    parse_app_event (si_parse_time it) (strip (si_line it)) = Inr None"
  then show "app_turn ast it = Continue ast"
    by (simp add: app_turn_def)
next
  fix st'
  assume "LogcatMonitor_monitor_loop lib cfg st its = (None, st') \<and>
           (\<forall>row \<in> set (lc_batch st). map fst row = logcat_keys)"
  then show "rows_of (lc_db st') ''logcat_entries'' =
        rows_of (lc_db st) ''logcat_entries'' @ lc_batch st @ logcat_entries_of lib its"
    using logcat_loop_stores_all by blast
next
  fix ast'
  assume "AppMonitor_monitor_loop ast its = (None, ast') \<and>
            (\<forall>row \<in> set (ap_batch ast). map fst row = app_keys)"
  then show "rows_of (ap_db ast') ''app_events'' =
        rows_of (ap_db ast) ''app_events'' @ ap_batch ast @ app_events_of its"
    using app_loop_stores_all by blast
qed

lemma insert_batch_healthy:
  assumes "\<not> db_closed db" and "db_faults db = []"
    and "map_of (db_tables db) tbl = Some t"
    and "set (map fst (hd data)) \<subseteq> set (map fst (tbl_columns t))"
  shows "fst (insert_batch db tbl data) = None"
  using assms by (simp add: insert_batch_def executemany_def Let_def)

lemma strip_force_stop: "strip ''Force stopping com.a'' = ''Force stopping com.a''"
  by (simp add: strip_def is_space_def)

lemma parse_force_stop:
  "parse_app_event t ''Force stopping com.a'' =
     Inr (Some (plain_app_event t ''force_stop'' ''com.a'' ''Force stopping com.a''))"
  by (simp add: parse_app_event_def start_activity_pattern_def displayed_pattern_def
        force_stop_pattern_def re_match_def is_digit_def is_space_def not_newline_def
        not_space_def consume_def and_then_def index_def)

lemma app_loop_pending:
  assumes "length (ap_batch st) + n < 50" and "t - ap_last_flush st \<le> 5"
  shows "AppMonitor_monitor_loop st (replicate n (log_line ''Force stopping com.a'' t) @ rest) =
         AppMonitor_monitor_loop
           (st\<lparr>ap_batch := ap_batch st @
                   replicate n (plain_app_event t ''force_stop'' ''com.a'' ''Force stopping com.a'')\<rparr>)
           rest"
  using assms
proof (induction n arbitrary: st)
  case 0
  then show ?case by simp
next
  case (Suc n)
  have run: "si_running (log_line ''Force stopping com.a'' t)"
    and p: "parse_app_event (si_parse_time (log_line ''Force stopping com.a'' t))
              (strip (si_line (log_line ''Force stopping com.a'' t)))
            = Inr (Some (plain_app_event t ''force_stop'' ''com.a'' ''Force stopping com.a''))"
    by (simp_all add: log_line_def strip_force_stop parse_force_stop)
  have ct: "si_check_time (log_line ''Force stopping com.a'' t) = t"
    by (simp add: log_line_def)
  from Suc.prems have "app_turn st (log_line ''Force stopping com.a'' t) =
      Continue (st\<lparr>ap_batch := ap_batch st @
                  [plain_app_event t ''force_stop'' ''com.a'' ''Force stopping com.a'']\<rparr>)"
    by (simp add: app_turn_record [OF run p] ct)
  moreover have "AppMonitor_monitor_loop
      (st\<lparr>ap_batch := ap_batch st @
              [plain_app_event t ''force_stop'' ''com.a'' ''Force stopping com.a'']\<rparr>)
      (replicate n (log_line ''Force stopping com.a'' t) @ rest) =
    AppMonitor_monitor_loop
      (st\<lparr>ap_batch := ap_batch st @
              [plain_app_event t ''force_stop'' ''com.a'' ''Force stopping com.a''] @
              replicate n (plain_app_event t ''force_stop'' ''com.a'' ''Force stopping com.a'')\<rparr>)
      rest"
    using Suc.IH [of "st\<lparr>ap_batch := ap_batch st @
              [plain_app_event t ''force_stop'' ''com.a'' ''Force stopping com.a'']\<rparr>"] Suc.prems
    by simp
  ultimately show ?case
    by (simp add: replicate_app_Cons_same)
qed

text \<open>
  Fifty app events within one second, on a store in order: the loop flushes at the
  fiftieth record (afterwards the batch is empty and \<^verbatim>\<open>last_flush\<close> is the time of that
  record), although the batch holds fewer than 100 records and fewer than 5 seconds
  have passed.
\<close>

theorem app_flush_at_fifty_counterexample:
  "AppMonitor_monitor_loop \<lparr>ap_batch = [], ap_last_flush = 0, ap_db = fresh_store\<rparr>
     (replicate 50 (log_line ''Force stopping com.a'' 1)) =
   (None, \<lparr>ap_batch = [], ap_last_flush = 1,
           ap_db = snd (insert_batch fresh_store ''app_events''
                    (replicate 50
                       (plain_app_event 1 ''force_stop'' ''com.a'' ''Force stopping com.a'')))\<rparr>) \<and>
   rows_of (snd (insert_batch fresh_store ''app_events''
                    (replicate 50
                       (plain_app_event 1 ''force_stop'' ''com.a'' ''Force stopping com.a''))))
       ''app_events'' =
     replicate 50 (plain_app_event 1 ''force_stop'' ''com.a'' ''Force stopping com.a'')"
proof -
  let ?ev = "plain_app_event 1 ''force_stop'' ''com.a'' ''Force stopping com.a''"
  let ?it = "log_line ''Force stopping com.a'' 1"
  let ?st0 = "\<lparr>ap_batch = [], ap_last_flush = 0, ap_db = fresh_store\<rparr>"
  define db50 where "db50 = snd (insert_batch fresh_store ''app_events'' (replicate 50 ?ev))"
  have ok: "fst (insert_batch fresh_store ''app_events'' (replicate 50 ?ev)) = None"
    by (rule insert_batch_healthy [where t = "\<lparr>tbl_columns = snd (schemas ! 6), tbl_rows = []\<rparr>"])
       (simp_all add: fresh_store_def schemas_def plain_app_event_def)
  then have ins: "insert_batch fresh_store ''app_events'' (replicate 50 ?ev) = (None, db50)"
    unfolding db50_def by (metis prod.collapse)
  have s50: "(50 :: nat) = Suc 49"
    by simp
  have r50: "replicate 49 ?ev @ [?ev] = replicate 50 ?ev"
    unfolding s50 by (simp only: replicate_append_same replicate_Suc)
  have i50: "replicate 50 ?it = replicate 49 ?it @ [?it]"
    unfolding s50 by (simp only: replicate_append_same replicate_Suc)
  have ct: "si_check_time ?it = 1" and ft: "si_flush_time ?it = 1"
    by (simp_all add: log_line_def)
  have run: "si_running ?it"
    and p: "parse_app_event (si_parse_time ?it) (strip (si_line ?it)) = Inr (Some ?ev)"
    by (simp_all add: log_line_def strip_force_stop parse_force_stop)
  have "AppMonitor_monitor_loop ?st0 (replicate 50 ?it) =
        AppMonitor_monitor_loop (?st0\<lparr>ap_batch := replicate 49 ?ev\<rparr>) [?it]"
    using app_loop_pending [of ?st0 49 1 "[?it]"] by (simp only: i50) simp
  also have "\<dots> = (None, \<lparr>ap_batch = [], ap_last_flush = 1, ap_db = db50\<rparr>)"
    by (simp add: app_turn_record [OF run p] r50 ins app_final_flush_def ct ft)
  finally have a: "AppMonitor_monitor_loop ?st0 (replicate 50 ?it) =
      (None, \<lparr>ap_batch = [], ap_last_flush = 1, ap_db = db50\<rparr>)" .
  have "rows_of db50 ''app_events'' = rows_of fresh_store ''app_events'' @ replicate 50 ?ev"
    by (rule insert_batch_uniform [OF ins _ app_keys_distinct])
       (simp add: plain_app_event_def app_keys_def)
  then have b: "rows_of db50 ''app_events'' = replicate 50 ?ev"
    by (simp add: rows_of_def fresh_store_def schemas_def)
  from a b show ?thesis
    unfolding db50_def by simp
qed

lemma strip_hello: "strip hello_line = hello_line"
  by (simp add: strip_def is_space_def hello_line_def)

lemma parse_hello: "parse_logcat_line plain_lib 2026 hello_line = Inr (Some hello_entry)"
  by (simp add: parse_logcat_line_def log_pattern_def re_match_def is_digit_def is_space_def
        not_newline_def consume_def and_then_def index_def split_ws_def split_on_def
        replace_def py_int_def digit_value_def datetime_star_def datetime_def days_in_month_def
        plain_lib_def hello_line_def hello_entry_def)

lemma hello_item:
  "si_running (log_line hello_line t)"
  "parse_logcat_line plain_lib (si_year (log_line hello_line t))
     (strip (si_line (log_line hello_line t))) = Inr (Some hello_entry)"
  "si_check_time (log_line hello_line t) = t"
  "si_flush_time (log_line hello_line t) = t"
  by (simp_all add: log_line_def strip_hello parse_hello)

lemma hello_turn:
  "logcat_turn plain_lib default_config st (log_line hello_line t) =
     (if length (lc_batch st) + 1 \<ge> 100 \<or> t - lc_last_flush st > 5
      then (case insert_batch (lc_db st) ''logcat_entries'' (lc_batch st @ [hello_entry]) of
              (Some e, db') \<Rightarrow>
                Raised e (st\<lparr>lc_buffer := deque_append (logcat_buffer_size default_config)
                                             (lc_buffer st) hello_entry,
                              lc_batch := lc_batch st @ [hello_entry], lc_db := db'\<rparr>)
            | (None, db') \<Rightarrow>
                Continue (st\<lparr>lc_buffer := deque_append (logcat_buffer_size default_config)
                                             (lc_buffer st) hello_entry,
                              lc_batch := [], lc_db := db',
                              lc_last_flush := si_flush_time (log_line hello_line t)\<rparr>))
      else Continue (st\<lparr>lc_buffer := deque_append (logcat_buffer_size default_config)
                                        (lc_buffer st) hello_entry,
                         lc_batch := lc_batch st @ [hello_entry]\<rparr>))"
  unfolding logcat_turn_record [OF hello_item(1,2)] hello_item(3) by (rule refl)

lemma default_buffer_size: "logcat_buffer_size default_config = 1000"
  by (simp add: default_config_def)

text \<open>
  Claim C2, at a failing input. Three lines that parse, the second read more than 5 seconds after the start, on a
  store whose next insert raises: the loop of the Logcat collector ends at the second
  line with the exception. The third line is not read (the result is the same without
  it), the two pending records are not stored, and nothing is retried, although the
  store would accept the next insert. The loop of the network collector, with the same
  fault at its first poll, logs the exception and stores the samples of the second
  poll.
\<close>

theorem store_error_ends_logcat_loop:
  "LogcatMonitor_monitor_loop plain_lib default_config
       (logcat_start (fresh_store\<lparr>db_faults := [True]\<rparr>))
       [log_line hello_line 1, log_line hello_line 7, log_line hello_line 8] =
     (Some OperationalError,
      \<lparr>lc_buffer = [hello_entry, hello_entry], lc_batch = [hello_entry, hello_entry],
       lc_last_flush = 0, lc_db = fresh_store\<rparr>) \<and>
   LogcatMonitor_monitor_loop plain_lib default_config
       (logcat_start (fresh_store\<lparr>db_faults := [True]\<rparr>))
       [log_line hello_line 1, log_line hello_line 7] =
     (Some OperationalError,
      \<lparr>lc_buffer = [hello_entry, hello_entry], lc_batch = [hello_entry, hello_entry],
       lc_last_flush = 0, lc_db = fresh_store\<rparr>) \<and>
   rows_of fresh_store ''logcat_entries'' = [] \<and>
   logcat_entries_of plain_lib
       [log_line hello_line 1, log_line hello_line 7, log_line hello_line 8] =
     [hello_entry, hello_entry, hello_entry] \<and>
   fst (NetworkMonitor_monitor_loop plain_lib default_config
          (Map.empty, fresh_store\<lparr>db_faults := [True]\<rparr>)
          [(Inr [net_sample 10 0 0], 10), (Inr [net_sample 15 0 0], 15)]) =
     [OperationalError] \<and>
   rows_of (snd (snd (NetworkMonitor_monitor_loop plain_lib default_config
          (Map.empty, fresh_store\<lparr>db_faults := [True]\<rparr>)
          [(Inr [net_sample 10 0 0], 10), (Inr [net_sample 15 0 0], 15)]))) ''network_stats'' =
     [network_stat_dict (net_sample 15 0 0)]"
proof (intro conjI)
  show "LogcatMonitor_monitor_loop plain_lib default_config
       (logcat_start (fresh_store\<lparr>db_faults := [True]\<rparr>))
       [log_line hello_line 1, log_line hello_line 7, log_line hello_line 8] =
     (Some OperationalError,
      \<lparr>lc_buffer = [hello_entry, hello_entry], lc_batch = [hello_entry, hello_entry],
       lc_last_flush = 0, lc_db = fresh_store\<rparr>)"
    by (simp add: hello_turn logcat_start_def deque_append_def insert_batch_def executemany_def
          fresh_store_def hello_item(4) default_buffer_size)
  show "LogcatMonitor_monitor_loop plain_lib default_config
       (logcat_start (fresh_store\<lparr>db_faults := [True]\<rparr>))
       [log_line hello_line 1, log_line hello_line 7] =
     (Some OperationalError,
      \<lparr>lc_buffer = [hello_entry, hello_entry], lc_batch = [hello_entry, hello_entry],
       lc_last_flush = 0, lc_db = fresh_store\<rparr>)"
    by (simp add: hello_turn logcat_start_def deque_append_def insert_batch_def executemany_def
          fresh_store_def hello_item(4) default_buffer_size)
  show "rows_of fresh_store ''logcat_entries'' = []"
    by (simp add: rows_of_def fresh_store_def schemas_def)
  show "logcat_entries_of plain_lib
       [log_line hello_line 1, log_line hello_line 7, log_line hello_line 8] =
     [hello_entry, hello_entry, hello_entry]"
    by (simp add: hello_item)
  show "fst (NetworkMonitor_monitor_loop plain_lib default_config
          (Map.empty, fresh_store\<lparr>db_faults := [True]\<rparr>)
          [(Inr [net_sample 10 0 0], 10), (Inr [net_sample 15 0 0], 15)]) =
     [OperationalError]"
    by (simp add: network_eval store_eval network_stat_dict_def)
  show "rows_of (snd (snd (NetworkMonitor_monitor_loop plain_lib default_config
          (Map.empty, fresh_store\<lparr>db_faults := [True]\<rparr>)
          [(Inr [net_sample 10 0 0], 10), (Inr [net_sample 15 0 0], 15)]))) ''network_stats'' =
     [network_stat_dict (net_sample 15 0 0)]"
    by (simp add: network_eval store_eval network_stat_dict_def)
qed

lemma hello_entries_one: "logcat_entries_of plain_lib [log_line hello_line 1] = [hello_entry]"
  by (simp add: hello_item)

theorem log_stream_flush_policy_witness:
  "si_running (log_line hello_line 1) \<and>
   parse_logcat_line plain_lib (si_year (log_line hello_line 1))
     (strip (si_line (log_line hello_line 1))) = Inr (Some hello_entry) \<and>
   logcat_turn plain_lib default_config (logcat_start fresh_store) (log_line hello_line 1) =
     Continue \<lparr>lc_buffer = [hello_entry], lc_batch = [hello_entry], lc_last_flush = 0,
               lc_db = fresh_store\<rparr> \<and>
   fst (LogcatMonitor_monitor_loop plain_lib default_config (logcat_start fresh_store)
          [log_line hello_line 1]) = None \<and>
   rows_of (lc_db (snd (LogcatMonitor_monitor_loop plain_lib default_config
                          (logcat_start fresh_store) [log_line hello_line 1])))
       ''logcat_entries'' = [hello_entry]"
proof -
  note t = log_stream_flush_policy
    [where it = "log_line hello_line 1" and lib = plain_lib and cfg = default_config
       and st = "logcat_start fresh_store" and entry = hello_entry
       and its = "[log_line hello_line 1]"]
  have h: "si_running (log_line hello_line 1) \<and>
      parse_logcat_line plain_lib (si_year (log_line hello_line 1))
        (strip (si_line (log_line hello_line 1))) = Inr (Some hello_entry)"
    using hello_item(1,2) by simp
  note t1 = t [THEN conjunct1, rule_format, OF h]
  have turn: "logcat_turn plain_lib default_config (logcat_start fresh_store)
      (log_line hello_line 1) =
     Continue \<lparr>lc_buffer = [hello_entry], lc_batch = [hello_entry], lc_last_flush = 0,
               lc_db = fresh_store\<rparr>"
    unfolding t1
    by (simp add: hello_item(3) logcat_start_def deque_append_def default_buffer_size)
  have loop: "LogcatMonitor_monitor_loop plain_lib default_config (logcat_start fresh_store)
        [log_line hello_line 1] =
      logcat_final_flush \<lparr>lc_buffer = [hello_entry], lc_batch = [hello_entry],
                           lc_last_flush = 0, lc_db = fresh_store\<rparr>"
    by (simp add: turn)
  have "fst (insert_batch fresh_store ''logcat_entries'' [hello_entry]) = None"
    by (rule insert_batch_healthy [where t = "\<lparr>tbl_columns = snd (schemas ! 0), tbl_rows = []\<rparr>"])
       (simp_all add: fresh_store_def schemas_def hello_entry_def)
  then have ok: "fst (LogcatMonitor_monitor_loop plain_lib default_config (logcat_start fresh_store)
          [log_line hello_line 1]) = None"
    unfolding loop by (auto simp: logcat_final_flush_def split: prod.splits)
  then have res: "LogcatMonitor_monitor_loop plain_lib default_config (logcat_start fresh_store)
          [log_line hello_line 1] =
        (None, snd (LogcatMonitor_monitor_loop plain_lib default_config (logcat_start fresh_store)
          [log_line hello_line 1]))"
    by (simp add: prod_eq_iff)
  have u: "\<forall>row \<in> set (lc_batch (logcat_start fresh_store)). map fst row = logcat_keys"
    by (simp add: logcat_start_def)
  note t5 = t [THEN conjunct2, THEN conjunct2, THEN conjunct2, THEN conjunct2, THEN conjunct1,
      rule_format, OF conjI, OF res u]
  have rows: "rows_of (lc_db (snd (LogcatMonitor_monitor_loop plain_lib default_config
                          (logcat_start fresh_store) [log_line hello_line 1])))
       ''logcat_entries'' = [hello_entry]"
    unfolding t5 hello_entries_one
    by (simp add: logcat_start_def rows_of_def fresh_store_def schemas_def)
  from h turn ok rows show ?thesis
    by simp
qed


end
